theory Spec2Isabelle
  imports Main "HOL-Library.AList"
begin

section \<open>Containers of the host language\<close>

text \<open>
  The service stores its data in JavaScript \<open>Set\<close> and \<open>Map\<close> objects. Both iterate
  in insertion order, and several loops of the service iterate over them, so a \<open>Set\<close> is
  a list without repetition in insertion order and a \<open>Map\<close> is an association list:
  \<open>map_of\<close> is \<open>Map.get\<close>, \<open>AList.update\<close> is \<open>Map.set\<close> (an existing key keeps its
  position, a new key goes to the end).
\<close>

type_synonym SymbolName = string
type_synonym FileName = string

definition Set_add :: "'a list \<Rightarrow> 'a \<Rightarrow> 'a list" where
  "Set_add xs x = (if x \<in> set xs then xs else xs @ [x])"

definition Set_addAll :: "'a list \<Rightarrow> 'a list \<Rightarrow> 'a list" where
  "Set_addAll xs ys = fold (\<lambda>y acc. Set_add acc y) ys xs"

text \<open>Truthiness of a \<open>string | null\<close> value: \<open>null\<close> and the empty string are falsy.\<close>

definition truthy :: "string option \<Rightarrow> bool" where
  "truthy v = (case v of None \<Rightarrow> False | Some s \<Rightarrow> s \<noteq> [])"

section \<open>The path module (POSIX)\<close>

fun splitOn :: "char \<Rightarrow> string \<Rightarrow> string list" where
  "splitOn c [] = [[]]"
| "splitOn c (x # xs) =
     (if x = c then [] # splitOn c xs
      else (case splitOn c xs of [] \<Rightarrow> [[x]] | s # ss \<Rightarrow> (x # s) # ss))"

fun joinSegments :: "string list \<Rightarrow> string" where
  "joinSegments [] = []"
| "joinSegments [s] = s"
| "joinSegments (s # t # ss) = s @ ''/'' @ joinSegments (t # ss)"

text \<open>
  \<open>normalizeString\<close> of the path module on the segments of a path: empty segments and
  \<open>.\<close> are dropped, \<open>..\<close> removes the segment before it; at the start of the path
  \<open>..\<close> is kept only when the path is relative. The accumulator is the stack of the
  segments kept so far, the last one first.
\<close>

fun normalizeSegments :: "bool \<Rightarrow> string list \<Rightarrow> string list \<Rightarrow> string list" where
  "normalizeSegments allowAboveRoot acc [] = rev acc"
| "normalizeSegments allowAboveRoot acc (s # ss) =
     (if s = [] \<or> s = ''.'' then normalizeSegments allowAboveRoot acc ss
      else if s = ''..'' then
        (case acc of
           [] \<Rightarrow> normalizeSegments allowAboveRoot (if allowAboveRoot then [''..''] else []) ss
         | t # ts \<Rightarrow>
             if t = ''..''
             then normalizeSegments allowAboveRoot (if allowAboveRoot then ''..'' # acc else acc) ss
             else normalizeSegments allowAboveRoot ts ss)
      else normalizeSegments allowAboveRoot (s # acc) ss)"

definition isAbsolute :: "string \<Rightarrow> bool" where
  "isAbsolute p = (case p of [] \<Rightarrow> False | c # _ \<Rightarrow> c = CHR ''/'')"

definition path_normalize :: "string \<Rightarrow> string" where
  "path_normalize p =
     (if p = [] then ''.''
      else
        let trailing = (last p = CHR ''/'');
            body = joinSegments (normalizeSegments (\<not> isAbsolute p) [] (splitOn CHR ''/'' p))
        in if body = [] then (if isAbsolute p then ''/'' else if trailing then ''./'' else ''.'')
           else (if isAbsolute p then ''/'' else []) @ body @ (if trailing then ''/'' else []))"

definition path_join :: "string \<Rightarrow> string \<Rightarrow> string" where
  "path_join a b =
     (let joined = (if a = [] then b else if b = [] then a else a @ ''/'' @ b)
      in if joined = [] then ''.'' else path_normalize joined)"

text \<open>
  \<open>path.resolve(dir, p)\<close>: the arguments are taken from the right until the path is
  absolute, the working directory last.
\<close>

definition path_resolve :: "string \<Rightarrow> string \<Rightarrow> string \<Rightarrow> string" where
  "path_resolve cwd dir p =
     (let full = (if isAbsolute p then p
                  else if isAbsolute dir then dir @ ''/'' @ p
                  else cwd @ ''/'' @ dir @ ''/'' @ p)
      in ''/'' @ joinSegments (normalizeSegments False [] (splitOn CHR ''/'' full)))"

text \<open>
  \<open>path.dirname\<close>: the path up to its last separator, separators at the end of the path
  and the first character left aside.
\<close>

definition path_dirname :: "string \<Rightarrow> string" where
  "path_dirname p =
     (case p of
        [] \<Rightarrow> ''.''
      | c # body \<Rightarrow>
          (case dropWhile (\<lambda>x. x \<noteq> CHR ''/'') (dropWhile (\<lambda>x. x = CHR ''/'') (rev body)) of
             [] \<Rightarrow> (if c = CHR ''/'' then ''/'' else ''.'')
           | _ # front \<Rightarrow>
               (if c = CHR ''/'' \<and> front = [] then ''//'' else c # rev front)))"

text \<open>
  \<open>path.extname\<close>: from the last dot of the last segment to its end; empty when there
  is no dot, when the segment starts with its only dot, and for the segment \<open>..\<close>.
\<close>

definition path_basename :: "string \<Rightarrow> string" where
  "path_basename p = rev (takeWhile (\<lambda>x. x \<noteq> CHR ''/'') (dropWhile (\<lambda>x. x = CHR ''/'') (rev p)))"

definition path_extname :: "string \<Rightarrow> string" where
  "path_extname p =
     (let b = path_basename p;
          afterDot = rev (takeWhile (\<lambda>x. x \<noteq> CHR ''.'') (rev b))
      in if CHR ''.'' \<notin> set b then []
         else if length afterDot + 1 = length b then []
         else if b = ''..'' then []
         else CHR ''.'' # afterDot)"

text \<open>\<open>toLowerCase\<close> on the letters A to Z; no other character maps to a letter of the
  style extensions.\<close>

definition toLowerChar :: "char \<Rightarrow> char" where
  "toLowerChar c =
     (case map_of (zip ''ABCDEFGHIJKLMNOPQRSTUVWXYZ'' ''abcdefghijklmnopqrstuvwxyz'') c of
        None \<Rightarrow> c
      | Some l \<Rightarrow> l)"

definition toLowerCase :: "string \<Rightarrow> string" where
  "toLowerCase s = map toLowerChar s"

definition startsWith :: "string \<Rightarrow> string \<Rightarrow> bool" where
  "startsWith s pre = (take (length pre) s = pre)"

section \<open>The environment: file system, parser, configuration\<close>

text \<open>
  The file system and the parser are outside the service. \<open>existsSync\<close> and
  \<open>statIsFile\<close> answer \<open>fs.existsSync\<close> and \<open>fs.statSync(p).isFile()\<close>; the service
  asks the second only for a path that exists.
\<close>

record 'ast env =
  cwd :: string
  existsSync :: "string \<Rightarrow> bool"
  statIsFile :: "string \<Rightarrow> bool"
  readSource :: "string \<Rightarrow> 'ast option"
  PathsMapping :: "(string \<times> string) list"

definition isFile :: "'ast env \<Rightarrow> string \<Rightarrow> bool" where
  "isFile e p = (existsSync e p \<and> statIsFile e p)"

section \<open>Resolution of file paths\<close>

definition extensions :: "string list" where
  "extensions = [''.ts'', ''.tsx'', ''.js'', ''.jsx'', ''.mjs'', ''.cjs'', ''.json'']"

text \<open>The two loops of \<open>resolveFilePath\<close> and the loop of \<open>findEntryFile\<close>: the first
  candidate that exists is returned.\<close>

fun firstExisting :: "'ast env \<Rightarrow> string list \<Rightarrow> string option" where
  "firstExisting e [] = None"
| "firstExisting e (c # cs) = (if existsSync e c then Some c else firstExisting e cs)"

definition resolveFilePath :: "'ast env \<Rightarrow> string \<Rightarrow> string option" where
  "resolveFilePath e filePath =
     (if isFile e filePath then Some filePath
      else
        (case firstExisting e (map (\<lambda>ext. filePath @ ext) extensions) of
           Some pathWithExt \<Rightarrow> Some pathWithExt
         | None \<Rightarrow>
             firstExisting e (map (\<lambda>ext. path_join filePath (''index'' @ ext)) extensions)))"

definition findEntryFile :: "'ast env \<Rightarrow> string \<Rightarrow> string option" where
  "findEntryFile e dirPath =
     firstExisting e
       (map (\<lambda>ext. path_join dirPath (''index'' @ ext)) [''.ts'', ''.tsx'', ''.js'', ''.jsx''])"

definition isTypeScriptFile :: "string \<Rightarrow> bool" where
  "isTypeScriptFile filePath = (path_extname filePath \<in> set [''.ts'', ''.tsx'', ''.js'', ''.jsx''])"

definition isRelativeImportPath :: "string \<Rightarrow> bool" where
  "isRelativeImportPath importPath = (startsWith importPath ''./'' \<or> startsWith importPath ''../'')"

definition isLocalImportPath :: "'ast env \<Rightarrow> string \<Rightarrow> bool" where
  "isLocalImportPath e importPath =
     (if isRelativeImportPath importPath then True
      else if map_of (PathsMapping e) importPath \<noteq> None then True
      else False)"

text \<open>\<open>a || b\<close> on a \<open>string | null\<close> and a string.\<close>

definition orElse :: "string option \<Rightarrow> string \<Rightarrow> string" where
  "orElse v d = (case v of None \<Rightarrow> d | Some s \<Rightarrow> if s = [] then d else s)"

definition resolveImportPath :: "'ast env \<Rightarrow> string \<Rightarrow> string \<Rightarrow> string" where
  "resolveImportPath e fromFile importPath =
     (if isRelativeImportPath importPath then
        let dir = path_dirname fromFile;
            resolved = path_resolve (cwd e) dir importPath
        in orElse (resolveFilePath e resolved) resolved
      else
        let mappedBase = map_of (PathsMapping e) importPath
        in if truthy mappedBase then orElse (resolveFilePath e (the mappedBase)) (the mappedBase)
           else importPath)"

definition isStyleFile :: "string \<Rightarrow> bool" where
  "isStyleFile filePath =
     (toLowerCase (path_extname filePath)
        \<in> set [''.css'', ''.scss'', ''.sass'', ''.less'', ''.styl'', ''.stylus''])"

definition resolveStylePath :: "'ast env \<Rightarrow> string \<Rightarrow> string \<Rightarrow> string option" where
  "resolveStylePath e fromFile importPath =
     (if isRelativeImportPath importPath then
        let dir = path_dirname fromFile;
            resolved = path_resolve (cwd e) dir importPath
        in if isFile e resolved then Some resolved
           else if path_extname resolved = [] then
             (case filter (isFile e)
                     (map (\<lambda>ext. resolved @ ext)
                        [''.css'', ''.scss'', ''.sass'', ''.less'', ''.styl'', ''.stylus'']) of
                [] \<Rightarrow> Some resolved
              | pathWithExt # _ \<Rightarrow> Some pathWithExt)
           else Some resolved
      else
        let mappedBase = map_of (PathsMapping e) importPath
        in if truthy mappedBase \<and> isFile e (the mappedBase) then mappedBase else None)"

section \<open>The syntax tree\<close>

text \<open>
  The parser is outside the service; its tree is the input of the extraction. A node
  carries what the handlers read from it (its kind and the fields they inspect) and the
  list of its children as \<open>ts.forEachChild\<close> enumerates them. The children are not
  tied to the fields, so every tree of the parser is a tree of this type.
\<close>

datatype expression =
    ImportKeyword
  | Identifier string
  | StringLiteral string
  | FunctionExpression "string option"
  | ClassExpression "string option"
  | OtherExpression

text \<open>An import or export specifier: \<open>propertyName\<close> (when written) and \<open>name\<close>.\<close>

datatype specifier = Specifier (propertyName: "string option") (name: string)

datatype named_bindings = NamedImports "specifier list" | NamespaceImport string

text \<open>An import clause: the default binding (when written) and the named bindings.\<close>

datatype import_clause = ImportClause "string option" "named_bindings option"

datatype export_clause = NamedExports "specifier list" | NamespaceExport string

datatype module_reference = ExternalModuleReference "expression option" | EntityName

datatype modifier = ExportKeyword | DefaultKeyword | OtherModifier

datatype binding_name = BindingIdentifier string | BindingPattern "binding_element list"
  and binding_element = BindingElement binding_name | OmittedExpression

text \<open>The name of a module declaration is an identifier or a string literal.\<close>

datatype declaration_name = ModuleIdentifier string | ModuleStringLiteral string

datatype decl_kind =
    FunctionDeclaration "string option"
  | ClassDeclaration "string option"
  | InterfaceDeclaration string
  | TypeAliasDeclaration string
  | EnumDeclaration string
  | ModuleDeclaration declaration_name
  | VariableStatement "binding_name list"
  | OtherDeclaration

text \<open>
  The kinds \<open>visitNode\<close> tells apart. \<open>ImportDeclaration\<close>: module specifier and import
  clause. \<open>CallExpression\<close>: callee and arguments. \<open>ExportDeclaration\<close>: module
  specifier and export clause. \<open>ExportAssignment\<close>: \<open>isExportEquals\<close> and the
  expression. \<open>Modifiable\<close>: any other node that can have modifiers, with them.
\<close>

datatype syntax_kind =
    ImportDeclaration expression "import_clause option"
  | ImportEqualsDeclaration "module_reference option"
  | CallExpression expression "expression list"
  | ExportDeclaration "expression option" "export_clause option"
  | ExportAssignment bool expression
  | Modifiable "modifier list" decl_kind
  | OtherNode

datatype node = Node syntax_kind "node list"

section \<open>Results and the state of the service\<close>

record Result =
  import :: "(FileName \<times> SymbolName list) list"
  defaultExport :: "string option"
  commonExport :: "SymbolName list"
  styleImports :: "FileName list"

text \<open>
  The fields of the service that change. \<open>extractionLog\<close> is not a field of the
  service: it records, in order, the file of every completed pass of \<open>visitNode\<close> over
  a source file, so that the number of passes over a file can be stated.
\<close>

record service_state =
  depsGraph :: "(FileName \<times> Result) list"
  analyzedFiles :: "string list"
  exportCache :: "(FileName \<times> Result) list"
  extractionLog :: "FileName list"

definition initialState :: service_state where
  "initialState = \<lparr>depsGraph = [], analyzedFiles = [], exportCache = [], extractionLog = []\<rparr>"

definition emptyResult :: Result where
  "emptyResult = \<lparr>import = [], defaultExport = None, commonExport = [], styleImports = []\<rparr>"

text \<open>
  A computation of the service that may call \<open>analyzeFile\<close> returns \<open>None\<close> when the
  nesting of these calls exceeds the fuel it was given.
\<close>

type_synonym exports_lookup =
  "service_state \<Rightarrow> FileName \<Rightarrow> (service_state \<times> Result option) option"

fun foldM :: "('a \<Rightarrow> 's \<Rightarrow> 's option) \<Rightarrow> 'a list \<Rightarrow> 's \<Rightarrow> 's option" where
  "foldM f [] s = Some s"
| "foldM f (x # xs) s = (case f x s of None \<Rightarrow> None | Some s' \<Rightarrow> foldM f xs s')"

lemma foldM_cong [fundef_cong]:
  "xs = ys \<Longrightarrow> s = t \<Longrightarrow> (\<And>x u. x \<in> set ys \<Longrightarrow> f x u = g x u) \<Longrightarrow> foldM f xs s = foldM g ys t"
proof (induction ys arbitrary: xs s t)
  case Nil
  then show ?case by simp
next
  case (Cons y ys)
  then show ?case by (cases "g y t") auto
qed

section \<open>The handlers of the extraction\<close>

text \<open>
  \<open>const existing = result.import.get(p) || new Set(); symbols.forEach(s => existing.add(s));
  result.import.set(p, existing)\<close>
\<close>

definition recordImport :: "Result \<Rightarrow> FileName \<Rightarrow> SymbolName list \<Rightarrow> Result" where
  "recordImport result absoluteImportPath symbols =
     (let existing = (case map_of (import result) absoluteImportPath of None \<Rightarrow> [] | Some s \<Rightarrow> s)
      in result\<lparr>import := AList.update absoluteImportPath (Set_addAll existing symbols) (import result)\<rparr>)"

text \<open>
  \<open>if (targetExports) { targetExports.commonExport.forEach(s => symbols.add(s));
  if (targetExports.defaultExport) symbols.add('default') }\<close>
\<close>

definition addTargetExports :: "SymbolName list \<Rightarrow> Result option \<Rightarrow> SymbolName list" where
  "addTargetExports symbols targetExports =
     (case targetExports of
        None \<Rightarrow> symbols
      | Some t \<Rightarrow>
          let symbols1 = Set_addAll symbols (commonExport t)
          in if truthy (defaultExport t) then Set_add symbols1 ''default'' else symbols1)"

definition addStyleImport :: "node env \<Rightarrow> Result \<Rightarrow> FileName \<Rightarrow> string \<Rightarrow> Result" where
  "addStyleImport e result currentFilePath importPath =
     (let absoluteStylePath = resolveStylePath e currentFilePath importPath
      in if truthy absoluteStylePath
         then result\<lparr>styleImports := Set_add (styleImports result) (the absoluteStylePath)\<rparr>
         else result)"

definition specifierOriginal :: "specifier \<Rightarrow> string" where
  "specifierOriginal element = (case propertyName element of Some pn \<Rightarrow> pn | None \<Rightarrow> name element)"

definition handleImportDeclaration ::
  "exports_lookup \<Rightarrow> node env \<Rightarrow> FileName \<Rightarrow> expression \<Rightarrow> import_clause option \<Rightarrow>
   service_state \<times> Result \<Rightarrow> (service_state \<times> Result) option" where
  "handleImportDeclaration getFileExports e currentFilePath moduleSpecifier importClause sr =
     (case sr of (st, result) \<Rightarrow>
      (case moduleSpecifier of
         StringLiteral importPath \<Rightarrow>
           if isStyleFile importPath then Some (st, addStyleImport e result currentFilePath importPath)
           else if \<not> isLocalImportPath e importPath then Some (st, result)
           else
             let absoluteImportPath = resolveImportPath e currentFilePath importPath;
                 finish = (\<lambda>st' symbols.
                    Some (st', if symbols \<noteq> [] \<or> importClause = None
                               then recordImport result absoluteImportPath symbols else result))
             in (case importClause of
                   None \<Rightarrow> finish st []
                 | Some (ImportClause defaultName namedBindings) \<Rightarrow>
                     let symbols = (if defaultName \<noteq> None then Set_add [] ''default'' else [])
                     in (case namedBindings of
                           None \<Rightarrow> finish st symbols
                         | Some (NamedImports elements) \<Rightarrow>
                             finish st (fold (\<lambda>element acc. Set_add acc (specifierOriginal element))
                                          elements symbols)
                         | Some (NamespaceImport ns) \<Rightarrow>
                             (case getFileExports st absoluteImportPath of
                                None \<Rightarrow> None
                              | Some (st', targetExports) \<Rightarrow>
                                  finish st' (addTargetExports symbols targetExports))))
       | _ \<Rightarrow> Some (st, result)))"

text \<open>
  The bodies of \<open>handleImportEquals\<close>, \<open>handleDynamicImport\<close> and \<open>handleRequire\<close> are
  the same from the point where the module path is known.
\<close>

definition importWholeModule ::
  "exports_lookup \<Rightarrow> node env \<Rightarrow> FileName \<Rightarrow> string \<Rightarrow>
   service_state \<times> Result \<Rightarrow> (service_state \<times> Result) option" where
  "importWholeModule getFileExports e currentFilePath importPath sr =
     (case sr of (st, result) \<Rightarrow>
      if isStyleFile importPath then Some (st, addStyleImport e result currentFilePath importPath)
      else if isLocalImportPath e importPath then
        let absoluteImportPath = resolveImportPath e currentFilePath importPath
        in (case getFileExports st absoluteImportPath of
              None \<Rightarrow> None
            | Some (st', targetExports) \<Rightarrow>
                let symbols = addTargetExports [] targetExports
                in Some (st', if symbols \<noteq> [] then recordImport result absoluteImportPath symbols
                              else result))
      else Some (st, result))"

definition handleImportEquals ::
  "exports_lookup \<Rightarrow> node env \<Rightarrow> FileName \<Rightarrow> module_reference option \<Rightarrow>
   service_state \<times> Result \<Rightarrow> (service_state \<times> Result) option" where
  "handleImportEquals getFileExports e currentFilePath moduleReference sr =
     (case moduleReference of
        Some (ExternalModuleReference (Some (StringLiteral importPath))) \<Rightarrow>
          importWholeModule getFileExports e currentFilePath importPath sr
      | _ \<Rightarrow> Some sr)"

definition handleDynamicImport ::
  "exports_lookup \<Rightarrow> node env \<Rightarrow> FileName \<Rightarrow> expression list \<Rightarrow>
   service_state \<times> Result \<Rightarrow> (service_state \<times> Result) option" where
  "handleDynamicImport getFileExports e currentFilePath arguments sr =
     (case arguments of
        StringLiteral importPath # _ \<Rightarrow> importWholeModule getFileExports e currentFilePath importPath sr
      | _ \<Rightarrow> Some sr)"

definition handleRequire ::
  "exports_lookup \<Rightarrow> node env \<Rightarrow> FileName \<Rightarrow> expression list \<Rightarrow>
   service_state \<times> Result \<Rightarrow> (service_state \<times> Result) option" where
  "handleRequire getFileExports e currentFilePath arguments sr =
     (case arguments of
        StringLiteral importPath # _ \<Rightarrow> importWholeModule getFileExports e currentFilePath importPath sr
      | _ \<Rightarrow> Some sr)"

definition handleExportDeclaration ::
  "exports_lookup \<Rightarrow> node env \<Rightarrow> FileName \<Rightarrow> expression option \<Rightarrow> export_clause option \<Rightarrow>
   service_state \<times> Result \<Rightarrow> (service_state \<times> Result) option" where
  "handleExportDeclaration getFileExports e currentFilePath moduleSpecifier exportClause sr =
     (case sr of (st, result) \<Rightarrow>
      (case moduleSpecifier of
         Some (StringLiteral exportPath) \<Rightarrow>
           if isLocalImportPath e exportPath then
             let absoluteExportPath = resolveImportPath e currentFilePath exportPath;
                 finish = (\<lambda>st' importSymbols exportSymbols.
                    let result1 = (if importSymbols \<noteq> []
                                   then recordImport result absoluteExportPath importSymbols
                                   else result)
                    in Some (st', result1\<lparr>commonExport :=
                                           Set_addAll (commonExport result1) exportSymbols\<rparr>))
             in (case exportClause of
                   Some (NamedExports elements) \<Rightarrow>
                     (case fold (\<lambda>element (importSymbols, exportSymbols).
                                   let originalName = specifierOriginal element;
                                       exportName = name element
                                   in if originalName = ''default''
                                      then (Set_add importSymbols ''default'',
                                            Set_add exportSymbols exportName)
                                      else (Set_add importSymbols originalName,
                                            Set_add exportSymbols exportName))
                                elements ([], []) of
                        (importSymbols, exportSymbols) \<Rightarrow> finish st importSymbols exportSymbols)
                 | Some (NamespaceExport ns) \<Rightarrow>
                     (case getFileExports st absoluteExportPath of
                        None \<Rightarrow> None
                      | Some (st', None) \<Rightarrow> finish st' [] []
                      | Some (st', Some targetExports) \<Rightarrow>
                          finish st' (addTargetExports [] (Some targetExports)) (Set_add [] ns))
                 | None \<Rightarrow>
                     (case getFileExports st absoluteExportPath of
                        None \<Rightarrow> None
                      | Some (st', None) \<Rightarrow> finish st' [] []
                      | Some (st', Some targetExports) \<Rightarrow>
                          finish st' (Set_addAll [] (commonExport targetExports))
                                     (Set_addAll [] (commonExport targetExports))))
           else Some (st, result)
       | _ \<Rightarrow>
           (case exportClause of
              Some (NamedExports elements) \<Rightarrow>
                Some (st, result\<lparr>commonExport :=
                                   fold (\<lambda>element acc. Set_add acc (name element)) elements
                                     (commonExport result)\<rparr>)
            | _ \<Rightarrow> Some (st, result))))"

definition handleExportAssignment :: "bool \<Rightarrow> expression \<Rightarrow> Result \<Rightarrow> Result" where
  "handleExportAssignment isExportEquals expr result =
     (if isExportEquals then result\<lparr>defaultExport := Some ''module.exports''\<rparr>
      else
        (case expr of
           Identifier text \<Rightarrow> result\<lparr>defaultExport := Some text\<rparr>
         | FunctionExpression (Some nm) \<Rightarrow> result\<lparr>defaultExport := Some nm\<rparr>
         | ClassExpression (Some nm) \<Rightarrow> result\<lparr>defaultExport := Some nm\<rparr>
         | _ \<Rightarrow> result\<lparr>defaultExport := Some ''default''\<rparr>))"

text \<open>\<open>extractBindingNames\<close>: the identifiers of a binding pattern, in order.\<close>

primrec visitBindingName :: "binding_name \<Rightarrow> string list"
  and visitBindingElement :: "binding_element \<Rightarrow> string list" where
  "visitBindingName (BindingIdentifier text) = [text]"
| "visitBindingName (BindingPattern elements) = concat (map visitBindingElement elements)"
| "visitBindingElement (BindingElement nm) = visitBindingName nm"
| "visitBindingElement OmittedExpression = []"

definition extractBindingNames :: "binding_element list \<Rightarrow> string list" where
  "extractBindingNames elements = concat (map visitBindingElement elements)"

text \<open>\<open>node.name?.text || 'default'\<close>\<close>

definition nameOrDefault :: "string option \<Rightarrow> string" where
  "nameOrDefault nm = (case nm of None \<Rightarrow> ''default'' | Some text \<Rightarrow> if text = [] then ''default'' else text)"

definition handleExportedDeclaration :: "modifier list \<Rightarrow> decl_kind \<Rightarrow> Result \<Rightarrow> Result" where
  "handleExportedDeclaration modifiers d result =
     (let hasDefault = (DefaultKeyword \<in> set modifiers);
          hasExport = (ExportKeyword \<in> set modifiers);
          addName = (\<lambda>text. result\<lparr>commonExport := Set_add (commonExport result) text\<rparr>)
      in if \<not> hasExport then result
         else if hasDefault then
           (case d of
              FunctionDeclaration nm \<Rightarrow> result\<lparr>defaultExport := Some (nameOrDefault nm)\<rparr>
            | ClassDeclaration nm \<Rightarrow> result\<lparr>defaultExport := Some (nameOrDefault nm)\<rparr>
            | _ \<Rightarrow> result)
         else
           (case d of
              FunctionDeclaration nm \<Rightarrow> (case nm of None \<Rightarrow> result | Some text \<Rightarrow> addName text)
            | ClassDeclaration nm \<Rightarrow> (case nm of None \<Rightarrow> result | Some text \<Rightarrow> addName text)
            | InterfaceDeclaration text \<Rightarrow> addName text
            | TypeAliasDeclaration text \<Rightarrow> addName text
            | EnumDeclaration text \<Rightarrow> addName text
            | ModuleDeclaration nm \<Rightarrow>
                (case nm of ModuleIdentifier text \<Rightarrow> addName text | ModuleStringLiteral _ \<Rightarrow> result)
            | VariableStatement declarations \<Rightarrow>
                result\<lparr>commonExport :=
                  fold (\<lambda>decl acc.
                          case decl of
                            BindingIdentifier text \<Rightarrow> Set_add acc text
                          | BindingPattern elements \<Rightarrow> Set_addAll acc (extractBindingNames elements))
                    declarations (commonExport result)\<rparr>
            | OtherDeclaration \<Rightarrow> result))"

definition isRequireCall :: "expression \<Rightarrow> expression list \<Rightarrow> bool" where
  "isRequireCall expr arguments = (expr = Identifier ''require'' \<and> length arguments > 0)"

section \<open>The extraction pass\<close>

text \<open>The chain of tests of \<open>visitNode\<close> on one node, before its children are visited.\<close>

definition handleNode ::
  "exports_lookup \<Rightarrow> node env \<Rightarrow> FileName \<Rightarrow> syntax_kind \<Rightarrow>
   service_state \<times> Result \<Rightarrow> (service_state \<times> Result) option" where
  "handleNode getFileExports e currentFilePath kind sr =
     (case kind of
        ImportDeclaration moduleSpecifier importClause \<Rightarrow>
          handleImportDeclaration getFileExports e currentFilePath moduleSpecifier importClause sr
      | ImportEqualsDeclaration moduleReference \<Rightarrow>
          handleImportEquals getFileExports e currentFilePath moduleReference sr
      | CallExpression expr arguments \<Rightarrow>
          if expr = ImportKeyword then handleDynamicImport getFileExports e currentFilePath arguments sr
          else if isRequireCall expr arguments
          then handleRequire getFileExports e currentFilePath arguments sr
          else Some sr
      | ExportDeclaration moduleSpecifier exportClause \<Rightarrow>
          handleExportDeclaration getFileExports e currentFilePath moduleSpecifier exportClause sr
      | ExportAssignment isExportEquals expr \<Rightarrow>
          Some (fst sr, handleExportAssignment isExportEquals expr (snd sr))
      | Modifiable modifiers d \<Rightarrow>
          if ExportKeyword \<in> set modifiers
          then Some (fst sr, handleExportedDeclaration modifiers d (snd sr))
          else Some sr
      | OtherNode \<Rightarrow> Some sr)"

fun visitNode ::
  "exports_lookup \<Rightarrow> node env \<Rightarrow> FileName \<Rightarrow> node \<Rightarrow>
   service_state \<times> Result \<Rightarrow> (service_state \<times> Result) option" where
  "visitNode getFileExports e currentFilePath (Node kind children) sr =
     (case handleNode getFileExports e currentFilePath kind sr of
        None \<Rightarrow> None
      | Some sr' \<Rightarrow> foldM (visitNode getFileExports e currentFilePath) children sr')"

text \<open>
  \<open>getFileExports\<close>, with the call of \<open>analyzeFile\<close> it ends in as a parameter: the
  export cache first, then the graph, then an analysis of the resolved file.
\<close>

definition getFileExportsWith :: "exports_lookup \<Rightarrow> node env \<Rightarrow> exports_lookup" where
  "getFileExportsWith analyze e st filePath =
     (case map_of (exportCache st) filePath of
        Some cached \<Rightarrow> Some (st, Some cached)
      | None \<Rightarrow>
          (case map_of (depsGraph st) filePath of
             Some known \<Rightarrow> Some (st, Some known)
           | None \<Rightarrow>
               let actualPath = resolveFilePath e filePath
               in if \<not> truthy actualPath then Some (st, None)
                  else analyze st (the actualPath)))"

text \<open>
  \<open>analyzeFile\<close>. The fuel bounds the nesting of \<open>analyzeFile\<close> inside itself (through
  \<open>getFileExports\<close>); a file that cannot be read gives \<open>null\<close>.
\<close>

primrec analyzeFile :: "nat \<Rightarrow> node env \<Rightarrow> exports_lookup" where
  "analyzeFile 0 e = (\<lambda>st absolutePath. None)"
| "analyzeFile (Suc n) e = (\<lambda>st absolutePath.
     (case readSource e absolutePath of
        None \<Rightarrow> Some (st, None)
      | Some sourceFile \<Rightarrow>
          (case visitNode (getFileExportsWith (analyzeFile n e) e) e absolutePath sourceFile
                  (st, emptyResult) of
             None \<Rightarrow> None
           | Some (st', result) \<Rightarrow>
               Some (st'\<lparr>exportCache := AList.update absolutePath result (exportCache st'),
                        analyzedFiles := Set_add (analyzedFiles st') absolutePath,
                        extractionLog := extractionLog st' @ [absolutePath]\<rparr>,
                     Some result))))"

definition getFileExports :: "nat \<Rightarrow> node env \<Rightarrow> exports_lookup" where
  "getFileExports n e = getFileExportsWith (analyzeFile n e) e"

section \<open>Construction of the graph\<close>

primrec analyzeFileRecursive ::
  "nat \<Rightarrow> node env \<Rightarrow> FileName \<Rightarrow> service_state \<times> FileName list \<Rightarrow>
   (service_state \<times> FileName list) option" where
  "analyzeFileRecursive 0 e = (\<lambda>absolutePath sv. None)"
| "analyzeFileRecursive (Suc n) e = (\<lambda>absolutePath sv.
     (case sv of (st, visitedFiles) \<Rightarrow>
        if absolutePath \<in> set visitedFiles then Some (st, visitedFiles)
        else
          let visitedFiles1 = Set_add visitedFiles absolutePath;
              actualPath = resolveFilePath e absolutePath
          in if \<not> truthy actualPath then Some (st, visitedFiles1)
             else
               (case map_of (depsGraph st) (the actualPath) of
                  Some result \<Rightarrow>
                    foldM (analyzeFileRecursive n e) (map fst (import result)) (st, visitedFiles1)
                | None \<Rightarrow>
                    (case analyzeFile n e st (the actualPath) of
                       None \<Rightarrow> None
                     | Some (st1, None) \<Rightarrow> Some (st1, visitedFiles1)
                     | Some (st1, Some result) \<Rightarrow>
                         foldM (analyzeFileRecursive n e) (map fst (import result))
                           (st1\<lparr>depsGraph := AList.update (the actualPath) result (depsGraph st1)\<rparr>,
                            visitedFiles1)))))"

section \<open>Tracing a symbol to its sources\<close>

definition isExported :: "Result \<Rightarrow> SymbolName \<Rightarrow> bool" where
  "isExported fileInfo symbol =
     (if symbol = ''default'' then defaultExport fileInfo \<noteq> None
      else symbol \<in> set (commonExport fileInfo))"

function traceSymbolSource ::
  "(FileName \<times> Result) list \<Rightarrow> FileName \<Rightarrow> SymbolName \<Rightarrow> FileName list \<Rightarrow> FileName list" where
  "traceSymbolSource g filePath symbol visited =
     (if filePath \<in> set visited then []
      else
        (case map_of g filePath of
           None \<Rightarrow> [filePath]
         | Some fileInfo \<Rightarrow>
             if \<not> isExported fileInfo symbol then []
             else
               (case fold (\<lambda>edge acc.
                             if symbol \<in> set (snd edge)
                             then (Set_addAll (fst acc)
                                     (traceSymbolSource g (fst edge) symbol (visited @ [filePath])),
                                   True)
                             else acc)
                          (import fileInfo) ([], False) of
                  (sources, foundInImports) \<Rightarrow>
                    if \<not> foundInImports then Set_add sources filePath else sources)))"
  by pat_completeness auto
termination
proof (relation "measure (\<lambda>(g, filePath, symbol, visited). card (fst ` set g - set visited))")
  show "wf (measure (\<lambda>(g, filePath, symbol, visited). card (fst ` set g - set visited)))"
    by simp
next
  fix g :: "(FileName \<times> Result) list" and filePath symbol :: string
    and visited :: "FileName list" and fileInfo and edge :: "FileName \<times> SymbolName list"
    and acc :: "FileName list \<times> bool"
  assume fresh: "filePath \<notin> set visited" and known: "map_of g filePath = Some fileInfo"
  from known have "filePath \<in> fst ` set g"
    by (metis map_of_eq_None_iff option.distinct(1))
  with fresh have "fst ` set g - set (visited @ [filePath]) \<subset> fst ` set g - set visited"
    by auto
  then have "card (fst ` set g - set (visited @ [filePath])) < card (fst ` set g - set visited)"
    by (intro psubset_card_mono) auto
  then show "((g, fst edge, symbol, visited @ [filePath]), (g, filePath, symbol, visited))
      \<in> measure (\<lambda>(g, filePath, symbol, visited). card (fst ` set g - set visited))"
    by simp
qed

declare traceSymbolSource.simps [simp del]

section \<open>The query\<close>

text \<open>
  \<open>findAllFinalDependencies\<close>. The sets \<open>finalDeps\<close> and \<open>visited\<close> are shared by all
  the calls, so they are passed in and returned. The fuel bounds the depth of the
  recursion.
\<close>

primrec findAllFinalDependencies ::
  "nat \<Rightarrow> (FileName \<times> Result) list \<Rightarrow> FileName \<Rightarrow> FileName list \<times> FileName list \<Rightarrow>
   (FileName list \<times> FileName list) option" where
  "findAllFinalDependencies 0 g = (\<lambda>filePath fv. None)"
| "findAllFinalDependencies (Suc n) g = (\<lambda>filePath fv.
     (case fv of (finalDeps, visited) \<Rightarrow>
        if filePath \<in> set visited then Some (finalDeps, visited)
        else
          (case map_of g filePath of
             None \<Rightarrow> Some (finalDeps, Set_add visited filePath)
           | Some fileInfo \<Rightarrow>
               foldM (\<lambda>edge.
                        foldM (\<lambda>symbol.
                                 foldM (\<lambda>source fv'.
                                          findAllFinalDependencies n g source
                                            (Set_add (fst fv') source, snd fv'))
                                   (traceSymbolSource g (fst edge) symbol []))
                          (snd edge))
                 (import fileInfo) (finalDeps, Set_add visited filePath))))"

definition collectStyles :: "(FileName \<times> Result) list \<Rightarrow> FileName list \<Rightarrow> FileName list" where
  "collectStyles g finalDeps =
     fold (\<lambda>depFile styleDeps.
             case map_of g depFile of
               None \<Rightarrow> styleDeps
             | Some fileInfo \<Rightarrow> Set_addAll styleDeps (styleImports fileInfo))
       finalDeps []"

definition query ::
  "nat \<Rightarrow> node env \<Rightarrow> service_state \<Rightarrow> string \<Rightarrow> (service_state \<times> FileName list) option" where
  "query n e st absFilePath =
     (let actualPath = resolveFilePath e absFilePath
      in if \<not> truthy actualPath then Some (st, [])
         else
           (case (if map_of (depsGraph st) (the actualPath) = None
                  then analyzeFileRecursive n e (the actualPath) (st, [])
                  else Some (st, [])) of
              None \<Rightarrow> None
            | Some (st1, _) \<Rightarrow>
                (case findAllFinalDependencies n (depsGraph st1) (the actualPath) ([], []) of
                   None \<Rightarrow> None
                 | Some (finalDeps, _) \<Rightarrow>
                     Some (st1, Set_addAll finalDeps (collectStyles (depsGraph st1) finalDeps)))))"

section \<open>Properties of the containers\<close>

lemma set_Set_add [simp]: "set (Set_add xs x) = insert x (set xs)"
  by (auto simp: Set_add_def)

lemma set_Set_addAll [simp]: "set (Set_addAll xs ys) = set xs \<union> set ys"
  unfolding Set_addAll_def by (induction ys arbitrary: xs) auto

lemma all_less_7: "(\<forall>j<7::nat. P j) = (P 0 \<and> P 1 \<and> P 2 \<and> P 3 \<and> P 4 \<and> P 5 \<and> P 6)"
  by (simp add: eval_nat_numeral All_less_Suc) blast

lemma all_less_4: "(\<forall>j<4::nat. P j) = (P 0 \<and> P 1 \<and> P 2 \<and> P 3)"
  by (simp add: eval_nat_numeral All_less_Suc) blast

text \<open>The loops of the service that may run out of fuel are folds in the option monad.\<close>

lemma foldM_invariant:
  assumes "foldM f xs s = Some s'" and "Q s"
    and "\<And>x u u'. x \<in> set xs \<Longrightarrow> Q u \<Longrightarrow> f x u = Some u' \<Longrightarrow> Q u'"
  shows "Q s'"
  using assms
proof (induction xs arbitrary: s)
  case Nil
  then show ?case by simp
next
  case (Cons x xs)
  from Cons.prems(1) obtain u where u: "f x s = Some u" and rest: "foldM f xs u = Some s'"
    by (auto split: option.splits)
  from Cons.prems(3) [of x s u] Cons.prems(2) u have "Q u" by simp
  with rest show ?case
    using Cons.IH [of u] Cons.prems(3) by auto
qed

lemma foldM_append:
  "foldM f (xs @ ys) s = (case foldM f xs s of None \<Rightarrow> None | Some s' \<Rightarrow> foldM f ys s')"
  by (induction xs arbitrary: s) (auto split: option.splits)

lemma foldM_concat_map:
  "foldM (\<lambda>x. foldM f (h x)) xs = foldM f (concat (map h xs))"
proof
  fix s
  show "foldM (\<lambda>x. foldM f (h x)) xs s = foldM f (concat (map h xs)) s"
    by (induction xs arbitrary: s) (auto simp: foldM_append split: option.splits)
qed

lemma foldM_total:
  assumes "Q s"
    and "\<And>x u. x \<in> set xs \<Longrightarrow> Q u \<Longrightarrow> \<exists>u'. f x u = Some u' \<and> Q u'"
  shows "\<exists>s'. foldM f xs s = Some s' \<and> Q s'"
  using assms
proof (induction xs arbitrary: s)
  case Nil
  then show ?case by simp
next
  case (Cons x xs)
  from Cons.prems(2) [of x s] Cons.prems(1) obtain u where u: "f x s = Some u" "Q u" by auto
  from Cons.IH [of u] u(2) Cons.prems(2) obtain s' where "foldM f xs u = Some s'" "Q s'" by auto
  with u show ?case by simp
qed

lemma foldM_mono:
  assumes "foldM f xs s = Some r" and "\<And>x u u'. x \<in> set xs \<Longrightarrow> f x u = Some u' \<Longrightarrow> f' x u = Some u'"
  shows "foldM f' xs s = Some r"
  using assms
proof (induction xs arbitrary: s)
  case Nil
  then show ?case by simp
next
  case (Cons x xs)
  from Cons.prems(1) obtain u where u: "f x s = Some u" and rest: "foldM f xs u = Some r"
    by (auto split: option.splits)
  from Cons.prems(2) [of x s u] u have "f' x s = Some u" by simp
  moreover from Cons.IH [OF rest] Cons.prems(2) have "foldM f' xs u = Some r" by simp
  ultimately show ?case by simp
qed

lemma foldM_filter_skip:
  assumes "\<And>x s. x \<in> set xs \<Longrightarrow> \<not> Q x \<Longrightarrow> f x s = Some s"
  shows "foldM f (filter Q xs) s = foldM f xs s"
  using assms by (induction xs arbitrary: s) (auto split: option.splits)

lemma foldM_inert:
  "(\<And>x s. x \<in> set xs \<Longrightarrow> f x s = Some s) \<Longrightarrow> foldM f xs s = Some s"
  by (induction xs) auto

section \<open>The order of file resolution\<close>

lemma firstExisting_index:
  "i < length cs \<Longrightarrow> existsSync e (cs ! i) \<Longrightarrow> (\<And>j. j < i \<Longrightarrow> \<not> existsSync e (cs ! j)) \<Longrightarrow>
   firstExisting e cs = Some (cs ! i)"
proof (induction cs arbitrary: i)
  case Nil
  then show ?case by simp
next
  case (Cons c cs)
  show ?case
  proof (cases i)
    case 0
    with Cons.prems show ?thesis by simp
  next
    case (Suc k)
    with Cons.prems(3) [of 0] have "\<not> existsSync e c" by simp
    moreover have "firstExisting e cs = Some (cs ! k)"
    proof (rule Cons.IH)
      show "k < length cs" using Cons.prems(1) Suc by simp
      show "existsSync e (cs ! k)" using Cons.prems(2) Suc by simp
      show "\<not> existsSync e (cs ! j)" if "j < k" for j
        using Cons.prems(3) [of "Suc j"] that Suc by simp
    qed
    ultimately show ?thesis using Suc by simp
  qed
qed

lemma firstExisting_none:
  "(\<And>j. j < length cs \<Longrightarrow> \<not> existsSync e (cs ! j)) \<Longrightarrow> firstExisting e cs = None"
proof (induction cs)
  case Nil
  then show ?case by simp
next
  case (Cons c cs)
  from Cons.prems [of 0] have "\<not> existsSync e c" by simp
  moreover have "firstExisting e cs = None"
  proof (rule Cons.IH)
    show "\<not> existsSync e (cs ! j)" if "j < length cs" for j
      using Cons.prems [of "Suc j"] that by simp
  qed
  ultimately show ?case by simp
qed

text \<open>The candidates of \<open>resolveFilePath\<close> and \<open>findEntryFile\<close>, by the position of the
  extension in the list.\<close>

definition withExt :: "string \<Rightarrow> nat \<Rightarrow> string" where
  "withExt filePath i = filePath @ extensions ! i"

definition indexWithExt :: "string \<Rightarrow> nat \<Rightarrow> string" where
  "indexWithExt dirPath i = path_join dirPath (''index'' @ extensions ! i)"

lemma length_extensions: "length extensions = 7"
  by (simp add: extensions_def)

text \<open>A directory \<open>/d\<close> whose only file is \<open>index.mjs\<close>.\<close>

definition fsIndexMjs :: "node env" where
  "fsIndexMjs = \<lparr>cwd = ''/'', existsSync = (\<lambda>p. p \<in> set [''/d'', ''/d/index.mjs'']),
     statIsFile = (\<lambda>p. p = ''/d/index.mjs''), readSource = (\<lambda>p. None), PathsMapping = []\<rparr>"

text \<open>
  C8, as stated, fails: the entry-file probe does not go through the extension list of
  \<open>resolveFilePath\<close>. In a directory that holds only \<open>index.mjs\<close>, probing
  \<open>index.<ext>\<close> over that list finds the file, and so does \<open>resolveFilePath\<close>, but
  \<open>findEntryFile\<close> finds nothing.
\<close>

theorem findEntryFile_order_counterexample:
  "firstExisting fsIndexMjs (map (\<lambda>ext. path_join ''/d'' (''index'' @ ext)) extensions)
     = Some ''/d/index.mjs''
   \<and> resolveFilePath fsIndexMjs ''/d'' = Some ''/d/index.mjs''
   \<and> findEntryFile fsIndexMjs ''/d'' = None"
  by code_simp

text \<open>
  C8, amended: \<open>resolveFilePath\<close> returns the path itself when it is a regular file;
  otherwise the path with the first extension of \<open>.ts, .tsx, .js, .jsx, .mjs, .cjs, .json\<close>
  for which the extended path exists; otherwise \<open>index.<ext>\<close> inside the path for the
  first extension of the same list for which it exists; otherwise \<open>null\<close>. The
  entry-file probe \<open>findEntryFile\<close> looks for \<open>index.<ext>\<close> over the first four
  extensions only (\<open>.ts, .tsx, .js, .jsx\<close>), in the same order, and returns \<open>null\<close>
  when none of these four exists.
\<close>

theorem resolveFilePath_order:
  "extensions = [''.ts'', ''.tsx'', ''.js'', ''.jsx'', ''.mjs'', ''.cjs'', ''.json''] \<and>
   (isFile e p \<longrightarrow> resolveFilePath e p = Some p) \<and>
   (\<not> isFile e p \<and> i < 7 \<and> existsSync e (withExt p i) \<and> (\<forall>j<i. \<not> existsSync e (withExt p j))
      \<longrightarrow> resolveFilePath e p = Some (withExt p i)) \<and>
   (\<not> isFile e p \<and> (\<forall>j<7. \<not> existsSync e (withExt p j)) \<and>
    i < 7 \<and> existsSync e (indexWithExt p i) \<and> (\<forall>j<i. \<not> existsSync e (indexWithExt p j))
      \<longrightarrow> resolveFilePath e p = Some (indexWithExt p i)) \<and>
   (\<not> isFile e p \<and> (\<forall>j<7. \<not> existsSync e (withExt p j)) \<and> (\<forall>j<7. \<not> existsSync e (indexWithExt p j))
      \<longrightarrow> resolveFilePath e p = None) \<and>
   (i < 4 \<and> existsSync e (indexWithExt d i) \<and> (\<forall>j<i. \<not> existsSync e (indexWithExt d j))
      \<longrightarrow> findEntryFile e d = Some (indexWithExt d i)) \<and>
   ((\<forall>j<4. \<not> existsSync e (indexWithExt d j)) \<longrightarrow> findEntryFile e d = None)"
proof -
  let ?A = "map (\<lambda>ext. p @ ext) extensions"
  let ?B = "map (\<lambda>ext. path_join p (''index'' @ ext)) extensions"
  let ?C = "map (\<lambda>ext. path_join d (''index'' @ ext)) [''.ts'', ''.tsx'', ''.js'', ''.jsx'']"
  have A: "?A ! j = withExt p j" if "j < 7" for j
    using that by (simp add: withExt_def length_extensions)
  have B: "?B ! j = indexWithExt p j" if "j < 7" for j
    using that by (simp add: indexWithExt_def length_extensions)
  have C: "?C ! j = indexWithExt d j" if "j < 4" for j
  proof -
    from that have "j = 0 \<or> j = 1 \<or> j = 2 \<or> j = 3" by arith
    then show ?thesis by (auto simp: indexWithExt_def extensions_def)
  qed
  have c1: "extensions = [''.ts'', ''.tsx'', ''.js'', ''.jsx'', ''.mjs'', ''.cjs'', ''.json'']"
    by (simp add: extensions_def)
  have c2: "isFile e p \<longrightarrow> resolveFilePath e p = Some p"
    by (simp add: resolveFilePath_def)
  have c3: "resolveFilePath e p = Some (withExt p i)"
    if "\<not> isFile e p" "i < 7" "existsSync e (withExt p i)" "\<forall>j<i. \<not> existsSync e (withExt p j)"
  proof -
    have "firstExisting e ?A = Some (?A ! i)"
    proof (rule firstExisting_index)
      show "i < length ?A" using that(2) by (simp add: length_extensions)
      show "existsSync e (?A ! i)" using that(2,3) A by simp
      show "\<not> existsSync e (?A ! j)" if "j < i" for j
        using that \<open>i < 7\<close> \<open>\<forall>j<i. \<not> existsSync e (withExt p j)\<close> A [of j] by simp
    qed
    with that(1,2) A [of i] show ?thesis by (simp add: resolveFilePath_def)
  qed
  have noA: "firstExisting e ?A = None" if "\<forall>j<7. \<not> existsSync e (withExt p j)"
  proof (rule firstExisting_none)
    show "\<not> existsSync e (?A ! j)" if "j < length ?A" for j
      using that \<open>\<forall>j<7. \<not> existsSync e (withExt p j)\<close> A [of j] by (simp add: length_extensions)
  qed
  have c4: "resolveFilePath e p = Some (indexWithExt p i)"
    if "\<not> isFile e p" "\<forall>j<7. \<not> existsSync e (withExt p j)" "i < 7"
       "existsSync e (indexWithExt p i)" "\<forall>j<i. \<not> existsSync e (indexWithExt p j)"
  proof -
    have "firstExisting e ?B = Some (?B ! i)"
    proof (rule firstExisting_index)
      show "i < length ?B" using that(3) by (simp add: length_extensions)
      show "existsSync e (?B ! i)" using that(3,4) B by simp
      show "\<not> existsSync e (?B ! j)" if "j < i" for j
        using that \<open>i < 7\<close> \<open>\<forall>j<i. \<not> existsSync e (indexWithExt p j)\<close> B [of j] by simp
    qed
    with that(1,3) noA [OF that(2)] B [of i] show ?thesis by (simp add: resolveFilePath_def)
  qed
  have c5: "resolveFilePath e p = None"
    if "\<not> isFile e p" "\<forall>j<7. \<not> existsSync e (withExt p j)" "\<forall>j<7. \<not> existsSync e (indexWithExt p j)"
  proof -
    have "firstExisting e ?B = None"
    proof (rule firstExisting_none)
      show "\<not> existsSync e (?B ! j)" if "j < length ?B" for j
        using that \<open>\<forall>j<7. \<not> existsSync e (indexWithExt p j)\<close> B [of j] by (simp add: length_extensions)
    qed
    with that(1) noA [OF that(2)] show ?thesis by (simp add: resolveFilePath_def)
  qed
  have c6: "findEntryFile e d = Some (indexWithExt d i)"
    if "i < 4" "existsSync e (indexWithExt d i)" "\<forall>j<i. \<not> existsSync e (indexWithExt d j)"
  proof -
    have "firstExisting e ?C = Some (?C ! i)"
    proof (rule firstExisting_index)
      show "i < length ?C" using that(1) by simp
      show "existsSync e (?C ! i)" using that(1,2) C by simp
      show "\<not> existsSync e (?C ! j)" if "j < i" for j
        using that \<open>i < 4\<close> \<open>\<forall>j<i. \<not> existsSync e (indexWithExt d j)\<close> C [of j] by simp
    qed
    with that(1) C [of i] show ?thesis by (simp add: findEntryFile_def)
  qed
  have c7: "findEntryFile e d = None" if "\<forall>j<4. \<not> existsSync e (indexWithExt d j)"
  proof -
    have "firstExisting e ?C = None"
    proof (rule firstExisting_none)
      show "\<not> existsSync e (?C ! j)" if "j < length ?C" for j
        using that \<open>\<forall>j<4. \<not> existsSync e (indexWithExt d j)\<close> C [of j] by simp
    qed
    then show ?thesis by (simp add: findEntryFile_def)
  qed
  from c1 c2 c3 c4 c5 c6 c7 show ?thesis by blast
qed

text \<open>
  Witness for C8 (amended), in the directory that holds only \<open>index.mjs\<close>: no extended
  path exists, the fifth extension is the first whose index file exists, and none of the
  first four index files exists.
\<close>

theorem resolveFilePath_order_witness:
  "resolveFilePath fsIndexMjs ''/d'' = Some ''/d/index.mjs'' \<and> findEntryFile fsIndexMjs ''/d'' = None"
proof -
  have w: "\<forall>j<7. \<not> existsSync fsIndexMjs (withExt ''/d'' j)"
    unfolding all_less_7 by (simp add: withExt_def extensions_def fsIndexMjs_def)
  have x: "\<forall>j<4. \<not> existsSync fsIndexMjs (indexWithExt ''/d'' j)"
    unfolding all_less_4 by code_simp
  have y: "existsSync fsIndexMjs (indexWithExt ''/d'' 4)" "indexWithExt ''/d'' 4 = ''/d/index.mjs''"
    by code_simp+
  have z: "\<not> isFile fsIndexMjs ''/d''"
    by (simp add: isFile_def fsIndexMjs_def)
  from resolveFilePath_order [of fsIndexMjs "''/d''" 4 "''/d''"] w x y z
  show ?thesis by simp
qed

section \<open>The tracer, case by case\<close>

lemma fold_trace_edges:
  "fold (\<lambda>edge acc. if P edge then (Set_addAll (fst acc) (F edge), True) else acc) es (s0, b0) = (s, b) \<Longrightarrow>
   set s = set s0 \<union> (\<Union>edge \<in> {edge \<in> set es. P edge}. set (F edge)) \<and>
   b = (b0 \<or> (\<exists>edge \<in> set es. P edge))"
proof (induction es arbitrary: s0 b0)
  case Nil
  then show ?case by simp
next
  case (Cons x es)
  show ?case
  proof (cases "P x")
    case True
    with Cons.prems have "fold (\<lambda>edge acc. if P edge then (Set_addAll (fst acc) (F edge), True) else acc)
        es (Set_addAll s0 (F x), True) = (s, b)" by simp
    from Cons.IH [OF this] True show ?thesis by auto
  next
    case False
    with Cons.prems have "fold (\<lambda>edge acc. if P edge then (Set_addAll (fst acc) (F edge), True) else acc)
        es (s0, b0) = (s, b)" by simp
    from Cons.IH [OF this] False show ?thesis by auto
  qed
qed

text \<open>
  A graph in which \<open>a\<close> forwards \<open>S\<close> from both \<open>b\<close> and \<open>c\<close>, which declare it, and
  \<open>T\<close> from \<open>c\<close>, which forwards it from \<open>a\<close>.
\<close>

definition graphBarrel :: "(FileName \<times> Result) list" where
  "graphBarrel =
     [(''/p/a.ts'', \<lparr>import = [(''/p/b.ts'', [''S'']), (''/p/c.ts'', [''S'', ''T''])], defaultExport = None,
                     commonExport = [''S'', ''T''], styleImports = []\<rparr>),
      (''/p/b.ts'', \<lparr>import = [], defaultExport = None, commonExport = [''S''], styleImports = []\<rparr>),
      (''/p/c.ts'', \<lparr>import = [(''/p/a.ts'', [''T''])], defaultExport = None,
                     commonExport = [''S'', ''T''], styleImports = []\<rparr>)]"

text \<open>
  C6: \<open>traceSymbolSource(file, symbol, visited)\<close> is empty when \<open>file\<close> is in
  \<open>visited\<close>; otherwise \<open>{file}\<close> when \<open>file\<close> is not in the graph; otherwise empty when
  \<open>symbol\<close> is not exported by \<open>file\<close> (\<open>defaultExport\<close> not \<open>null\<close> for \<open>default\<close>,
  membership in \<open>commonExport\<close> for any other name); otherwise the union of the traces of
  \<open>symbol\<close> over every import edge whose symbol set contains \<open>symbol\<close>, each with its own
  copy of the visited set (to which \<open>file\<close> has been added); and \<open>{file}\<close> when no import
  edge carries \<open>symbol\<close>. The function is total: several origins are a union, not an error.
\<close>

theorem traceSymbolSource_spec:
  "set (traceSymbolSource g file symbol pathVisited) =
     (if file \<in> set pathVisited then {}
      else
        (case map_of g file of
           None \<Rightarrow> {file}
         | Some fileInfo \<Rightarrow>
             if \<not> (if symbol = ''default'' then defaultExport fileInfo \<noteq> None
                    else symbol \<in> set (commonExport fileInfo))
             then {}
             else if \<exists>edge \<in> set (import fileInfo). symbol \<in> set (snd edge)
             then (\<Union>edge \<in> set (filter (\<lambda>edge. symbol \<in> set (snd edge)) (import fileInfo)).
                     set (traceSymbolSource g (fst edge) symbol (pathVisited @ [file])))
             else {file}))"
proof (cases "file \<in> set pathVisited")
  case True
  then show ?thesis by (subst traceSymbolSource.simps) simp
next
  case fresh: False
  show ?thesis
  proof (cases "map_of g file")
    case None
    with fresh show ?thesis by (subst traceSymbolSource.simps) simp
  next
    case (Some fileInfo)
    show ?thesis
    proof (cases "isExported fileInfo symbol")
      case False
      with fresh Some show ?thesis
        by (subst traceSymbolSource.simps) (simp add: isExported_def)
    next
      case True
      obtain s b where fold_eq:
        "fold (\<lambda>edge acc.
                 if symbol \<in> set (snd edge)
                 then (Set_addAll (fst acc)
                         (traceSymbolSource g (fst edge) symbol (pathVisited @ [file])), True)
                 else acc)
           (import fileInfo) ([], False) = (s, b)"
        by (cases "fold (\<lambda>edge acc.
                 if symbol \<in> set (snd edge)
                 then (Set_addAll (fst acc)
                         (traceSymbolSource g (fst edge) symbol (pathVisited @ [file])), True)
                 else acc)
           (import fileInfo) ([], False)") auto
      from fold_trace_edges [OF fold_eq]
      have s: "set s = (\<Union>edge \<in> {edge \<in> set (import fileInfo). symbol \<in> set (snd edge)}.
                     set (traceSymbolSource g (fst edge) symbol (pathVisited @ [file])))"
        and b: "b = (\<exists>edge \<in> set (import fileInfo). symbol \<in> set (snd edge))"
        by auto
      have "traceSymbolSource g file symbol pathVisited = (if \<not> b then Set_add s file else s)"
        using fresh Some True fold_eq by (subst traceSymbolSource.simps) simp
      moreover have "s = []" if "\<not> b"
      proof -
        from that b have "{edge \<in> set (import fileInfo). symbol \<in> set (snd edge)} = {}" by blast
        with s have "set s = {}" by simp
        then show ?thesis by simp
      qed
      ultimately have "set (traceSymbolSource g file symbol pathVisited) =
          (if b then set s else {file})" by auto
      with fresh Some True s b show ?thesis
        by (simp add: isExported_def)
    qed
  qed
qed

text \<open>
  Witness for C6: in the graph above, the trace of \<open>S\<close> from \<open>a\<close> is the union of the
  traces along its two edges, the files \<open>b\<close> and \<open>c\<close>.
\<close>

theorem traceSymbolSource_spec_witness:
  "set (traceSymbolSource graphBarrel ''/p/a.ts'' ''S'' []) = {''/p/b.ts'', ''/p/c.ts''}"
proof -
  have b: "set (traceSymbolSource graphBarrel ''/p/b.ts'' ''S'' [''/p/a.ts'']) = {''/p/b.ts''}"
    using traceSymbolSource_spec [of graphBarrel "''/p/b.ts''" "''S''" "[''/p/a.ts'']"]
    by (simp add: graphBarrel_def)
  have c: "set (traceSymbolSource graphBarrel ''/p/c.ts'' ''S'' [''/p/a.ts'']) = {''/p/c.ts''}"
    using traceSymbolSource_spec [of graphBarrel "''/p/c.ts''" "''S''" "[''/p/a.ts'']"]
    by (simp add: graphBarrel_def)
  show ?thesis
    using traceSymbolSource_spec [of graphBarrel "''/p/a.ts''" "''S''" "[]"] b c
    by (simp add: graphBarrel_def insert_commute)
qed

section \<open>Nodes that change nothing\<close>

text \<open>
  A tree made of nodes that are none of the kinds of \<open>visitNode\<close> (clauses, identifiers,
  literals, tokens) leaves the state and the result as they are. The example trees below
  leave such subtrees out.
\<close>

fun inert :: "node \<Rightarrow> bool" where
  "inert (Node kind children) = (kind = OtherNode \<and> list_all inert children)"

lemma visitNode_inert: "inert nd \<Longrightarrow> visitNode lookup e cur nd sr = Some sr"
proof (induction lookup e cur nd sr rule: visitNode.induct)
  case (1 lookup e cur kind children sr)
  from "1.prems" have k: "kind = OtherNode" and c: "\<And>x. x \<in> set children \<Longrightarrow> inert x"
    by (auto simp: list_all_iff)
  have h: "handleNode lookup e cur kind sr = Some sr"
    by (simp add: k handleNode_def)
  have "foldM (visitNode lookup e cur) children sr = Some sr"
    by (rule foldM_inert) (use "1.IH" [OF h] c in auto)
  with h show ?case by simp
qed

section \<open>Namespace imports\<close>

text \<open>
  Three files. \<open>a.ts\<close> is \<open>import * as ns from './b'\<close>, \<open>b.ts\<close> is
  \<open>export const x = 1\<close>, and \<open>c.ts\<close> is \<open>import * as gone from './missing'\<close>, where no
  file \<open>missing\<close> exists.
\<close>

definition fsNamespace :: "node env" where
  "fsNamespace =
     \<lparr>cwd = ''/'',
      existsSync = (\<lambda>p. p \<in> set [''/p'', ''/p/a.ts'', ''/p/b.ts'', ''/p/c.ts'']),
      statIsFile = (\<lambda>p. p \<in> set [''/p/a.ts'', ''/p/b.ts'', ''/p/c.ts'']),
      readSource = (\<lambda>p.
        if p = ''/p/a.ts'' then
          Some (Node OtherNode
            [Node (ImportDeclaration (StringLiteral ''./b'')
                     (Some (ImportClause None (Some (NamespaceImport ''ns''))))) []])
        else if p = ''/p/b.ts'' then
          Some (Node OtherNode
            [Node (Modifiable [ExportKeyword] (VariableStatement [BindingIdentifier ''x''])) []])
        else if p = ''/p/c.ts'' then
          Some (Node OtherNode
            [Node (ImportDeclaration (StringLiteral ''./missing'')
                     (Some (ImportClause None (Some (NamespaceImport ''gone''))))) []])
        else None),
      PathsMapping = []\<rparr>"

text \<open>
  C1 fails on the code. A query of \<open>a.ts\<close> on a new service extracts \<open>b.ts\<close> twice: once
  from \<open>getFileExports\<close> while \<open>a.ts\<close> is extracted (the result goes to the export cache
  only), and once more from \<open>analyzeFileRecursive\<close>, which looks in the graph and not in
  the export cache.
\<close>

theorem extraction_twice:
  "map_option (extractionLog \<circ> fst) (query 3 fsNamespace initialState ''/p/a.ts'')
     = Some [''/p/b.ts'', ''/p/a.ts'', ''/p/b.ts'']"
  by code_simp

text \<open>
  C3 fails on the code. The namespace import of \<open>a.ts\<close> is recorded with the names
  exported by \<open>b.ts\<close> and without the sentinel \<open>*\<close>; the namespace import of \<open>c.ts\<close>,
  whose target cannot be analyzed, is not recorded at all.
\<close>

theorem namespace_import_without_sentinel:
  "map_option (map_option import \<circ> snd) (analyzeFile 2 fsNamespace initialState ''/p/a.ts'')
     = Some (Some [(''/p/b.ts'', [''x''])])
   \<and> map_option (map_option import \<circ> snd) (analyzeFile 2 fsNamespace initialState ''/p/c.ts'')
     = Some (Some [])"
  by code_simp

section \<open>Default exports written as export specifiers\<close>

text \<open>
  \<open>a.ts\<close> is \<open>export { default } from './y'\<close>; \<open>c.ts\<close> is
  \<open>const x = 1; export { x as default }\<close>; \<open>y.ts\<close> is \<open>export default function () {}\<close>;
  \<open>u.ts\<close> is \<open>import Y from './a'\<close>.
\<close>

definition fsDefaultExports :: "node env" where
  "fsDefaultExports =
     \<lparr>cwd = ''/'',
      existsSync = (\<lambda>p. p \<in> set [''/p'', ''/p/a.ts'', ''/p/c.ts'', ''/p/u.ts'', ''/p/y.ts'']),
      statIsFile = (\<lambda>p. p \<in> set [''/p/a.ts'', ''/p/c.ts'', ''/p/u.ts'', ''/p/y.ts'']),
      readSource = (\<lambda>p.
        if p = ''/p/a.ts'' then
          Some (Node OtherNode
            [Node (ExportDeclaration (Some (StringLiteral ''./y''))
                     (Some (NamedExports [Specifier None ''default'']))) []])
        else if p = ''/p/c.ts'' then
          Some (Node OtherNode
            [Node (Modifiable [] (VariableStatement [BindingIdentifier ''x''])) [],
             Node (ExportDeclaration None
                     (Some (NamedExports [Specifier (Some ''x'') ''default'']))) []])
        else if p = ''/p/u.ts'' then
          Some (Node OtherNode
            [Node (ImportDeclaration (StringLiteral ''./a'')
                     (Some (ImportClause (Some ''Y'') None))) []])
        else if p = ''/p/y.ts'' then
          Some (Node OtherNode
            [Node (Modifiable [ExportKeyword, DefaultKeyword] (FunctionDeclaration None)) []])
        else None),
      PathsMapping = []\<rparr>"

text \<open>
  C2 fails on the code. After the extraction of \<open>a.ts\<close>, and of \<open>c.ts\<close>, the set
  \<open>commonExport\<close> of the result contains \<open>default\<close>, and \<open>defaultExport\<close> is \<open>null\<close>. The
  tracer looks for \<open>default\<close> in \<open>defaultExport\<close> only, so the query of \<open>u.ts\<close>, which imports
  the default export that \<open>a.ts\<close> forwards from \<open>y.ts\<close>, finds nothing.
\<close>

theorem commonExport_holds_default:
  "map_option (map_option (\<lambda>r. (commonExport r, defaultExport r)) \<circ> snd)
       (analyzeFile 1 fsDefaultExports initialState ''/p/a.ts'')
     = Some (Some ([''default''], None))
   \<and> map_option (map_option (\<lambda>r. (commonExport r, defaultExport r)) \<circ> snd)
       (analyzeFile 1 fsDefaultExports initialState ''/p/c.ts'')
     = Some (Some ([''default''], None))
   \<and> map_option snd (query 4 fsDefaultExports initialState ''/p/u.ts'') = Some []"
  by code_simp

section \<open>Two files that import each other as namespaces\<close>

text \<open>\<open>a.ts\<close> is \<open>import * as b from './b'\<close> and \<open>b.ts\<close> is \<open>import * as a from './a'\<close>.\<close>

definition fsNamespaceCycle :: "node env" where
  "fsNamespaceCycle =
     \<lparr>cwd = ''/'',
      existsSync = (\<lambda>p. p \<in> set [''/p'', ''/p/a.ts'', ''/p/b.ts'']),
      statIsFile = (\<lambda>p. p \<in> set [''/p/a.ts'', ''/p/b.ts'']),
      readSource = (\<lambda>p.
        if p = ''/p/a.ts'' then
          Some (Node OtherNode
            [Node (ImportDeclaration (StringLiteral ''./b'')
                     (Some (ImportClause None (Some (NamespaceImport ''b''))))) []])
        else if p = ''/p/b.ts'' then
          Some (Node OtherNode
            [Node (ImportDeclaration (StringLiteral ''./a'')
                     (Some (ImportClause None (Some (NamespaceImport ''a''))))) []])
        else None),
      PathsMapping = []\<rparr>"

lemma namespace_cycle_paths:
  "resolveImportPath fsNamespaceCycle ''/p/a.ts'' ''./b'' = ''/p/b.ts''"
  "resolveImportPath fsNamespaceCycle ''/p/b.ts'' ''./a'' = ''/p/a.ts''"
  "resolveFilePath fsNamespaceCycle ''/p/a.ts'' = Some ''/p/a.ts''"
  "resolveFilePath fsNamespaceCycle ''/p/b.ts'' = Some ''/p/b.ts''"
  "isLocalImportPath fsNamespaceCycle ''./a''"
  "isLocalImportPath fsNamespaceCycle ''./b''"
  "\<not> isStyleFile ''./a''"
  "\<not> isStyleFile ''./b''"
  by code_simp+

lemma namespace_cycle_analyzeFile:
  "analyzeFile n fsNamespaceCycle initialState ''/p/a.ts'' = None \<and>
   analyzeFile n fsNamespaceCycle initialState ''/p/b.ts'' = None"
proof (induction n)
  case 0
  show ?case by simp
next
  case (Suc n)
  have src: "readSource fsNamespaceCycle ''/p/a.ts''
      = Some (Node OtherNode
            [Node (ImportDeclaration (StringLiteral ''./b'')
                     (Some (ImportClause None (Some (NamespaceImport ''b''))))) []])"
    "readSource fsNamespaceCycle ''/p/b.ts''
      = Some (Node OtherNode
            [Node (ImportDeclaration (StringLiteral ''./a'')
                     (Some (ImportClause None (Some (NamespaceImport ''a''))))) []])"
    by (simp_all add: fsNamespaceCycle_def)
  have empty: "map_of (exportCache initialState) p = None" "map_of (depsGraph initialState) p = None" for p
    by (simp_all add: initialState_def)
  from Suc show ?case
    by (simp add: src empty namespace_cycle_paths handleNode_def handleImportDeclaration_def
        getFileExportsWith_def truthy_def)
qed

text \<open>
  C9 fails on the code. For the two files above the construction of the graph does not
  return, from either file and whatever the fuel: \<open>analyzeFile\<close> of one file asks
  \<open>getFileExports\<close> for the other, which is in no cache before its own extraction has
  ended, and so on without end. The same holds for a query, which starts the
  construction.
\<close>

theorem namespace_cycle_diverges:
  "\<forall>n. analyzeFileRecursive n fsNamespaceCycle ''/p/a.ts'' (initialState, []) = None \<and>
       analyzeFileRecursive n fsNamespaceCycle ''/p/b.ts'' (initialState, []) = None \<and>
       query n fsNamespaceCycle initialState ''/p/a.ts'' = None \<and>
       query n fsNamespaceCycle initialState ''/p/b.ts'' = None"
proof
  fix n
  have empty: "map_of (depsGraph initialState) p = None" for p
    by (simp add: initialState_def)
  have rec: "analyzeFileRecursive n fsNamespaceCycle ''/p/a.ts'' (initialState, []) = None \<and>
       analyzeFileRecursive n fsNamespaceCycle ''/p/b.ts'' (initialState, []) = None"
  proof (cases n)
    case 0
    then show ?thesis by simp
  next
    case (Suc m)
    with namespace_cycle_analyzeFile [of m] show ?thesis
      by (simp add: namespace_cycle_paths empty truthy_def)
  qed
  then show "analyzeFileRecursive n fsNamespaceCycle ''/p/a.ts'' (initialState, []) = None \<and>
       analyzeFileRecursive n fsNamespaceCycle ''/p/b.ts'' (initialState, []) = None \<and>
       query n fsNamespaceCycle initialState ''/p/a.ts'' = None \<and>
       query n fsNamespaceCycle initialState ''/p/b.ts'' = None"
    by (simp add: query_def namespace_cycle_paths empty truthy_def)
qed

section \<open>The keys of the import ledger\<close>

text \<open>
  \<open>importKeys\<close>: the keys of the import ledger of a result. \<open>localTargets\<close>: what
  \<open>resolveImportPath\<close> returns, from a given file, for the specifiers that are local (relative,
  or a key of the paths mapping).
\<close>

definition importKeys :: "Result \<Rightarrow> FileName set" where
  "importKeys result = fst ` set (import result)"

definition localTargets :: "node env \<Rightarrow> FileName \<Rightarrow> FileName set" where
  "localTargets e currentFilePath =
     {resolveImportPath e currentFilePath importPath | importPath. isLocalImportPath e importPath}"

lemma importKeys_recordImport:
  "importKeys (recordImport result k symbols) = insert k (importKeys result)"
  by (simp add: importKeys_def recordImport_def Let_def dom_update)

lemma importKeys_addStyleImport:
  "importKeys (addStyleImport e result cur importPath) = importKeys result"
  by (simp add: importKeys_def addStyleImport_def Let_def)

lemma importKeys_commonExport_update [simp]:
  "importKeys (result\<lparr>commonExport := c\<rparr>) = importKeys result"
  "importKeys (result\<lparr>defaultExport := d\<rparr>) = importKeys result"
  by (simp_all add: importKeys_def)

lemma localTargetsI:
  "isLocalImportPath e importPath \<Longrightarrow> resolveImportPath e cur importPath \<in> localTargets e cur"
  by (auto simp: localTargets_def)

lemma handleImportDeclaration_keys:
  assumes "handleImportDeclaration gfe e cur moduleSpecifier importClause (st, result) = Some (st', result')"
  shows "importKeys result' \<subseteq> importKeys result \<union> localTargets e cur"
  using assms
  by (auto simp: handleImportDeclaration_def Let_def importKeys_recordImport importKeys_addStyleImport
      dest: localTargetsI
      split: expression.splits if_splits option.splits import_clause.splits named_bindings.splits prod.splits)

lemma importWholeModule_keys:
  assumes "importWholeModule gfe e cur importPath (st, result) = Some (st', result')"
  shows "importKeys result' \<subseteq> importKeys result \<union> localTargets e cur"
  using assms
  by (auto simp: importWholeModule_def Let_def importKeys_recordImport importKeys_addStyleImport
      dest: localTargetsI split: if_splits option.splits prod.splits)

lemma handleExportDeclaration_keys:
  assumes "handleExportDeclaration gfe e cur moduleSpecifier exportClause (st, result) = Some (st', result')"
  shows "importKeys result' \<subseteq> importKeys result \<union> localTargets e cur"
  using assms
  by (auto simp: handleExportDeclaration_def Let_def importKeys_recordImport
      dest: localTargetsI
      split: expression.splits if_splits option.splits export_clause.splits prod.splits)

lemma handleExportAssignment_keys:
  "importKeys (handleExportAssignment isExportEquals expr result) = importKeys result"
  by (simp add: handleExportAssignment_def split: expression.splits option.splits)

lemma handleExportedDeclaration_keys:
  "importKeys (handleExportedDeclaration modifiers d result) = importKeys result"
  by (simp add: handleExportedDeclaration_def Let_def
      split: decl_kind.splits option.splits declaration_name.splits)

lemma handleNode_keys:
  assumes "handleNode gfe e cur kind (st, result) = Some (st', result')"
  shows "importKeys result' \<subseteq> importKeys result \<union> localTargets e cur"
proof (cases kind)
  case (ImportDeclaration moduleSpecifier importClause)
  with assms show ?thesis
    by (simp add: handleNode_def handleImportDeclaration_keys)
next
  case (ImportEqualsDeclaration moduleReference)
  with assms show ?thesis
    by (auto simp: handleNode_def handleImportEquals_def
        split: option.splits module_reference.splits expression.splits
        dest: importWholeModule_keys)
next
  case (CallExpression expr arguments)
  with assms show ?thesis
    by (auto simp: handleNode_def handleDynamicImport_def handleRequire_def
        split: if_splits list.splits expression.splits
        dest: importWholeModule_keys)
next
  case (ExportDeclaration moduleSpecifier exportClause)
  with assms show ?thesis
    by (simp add: handleNode_def handleExportDeclaration_keys)
next
  case (ExportAssignment isExportEquals expr)
  with assms show ?thesis
    by (auto simp: handleNode_def handleExportAssignment_keys)
next
  case (Modifiable modifiers d)
  with assms show ?thesis
    by (auto simp: handleNode_def handleExportedDeclaration_keys split: if_splits)
next
  case OtherNode
  with assms show ?thesis
    by (simp add: handleNode_def)
qed

lemma visitNode_keys:
  "visitNode gfe e cur nd sr = Some sr' \<Longrightarrow> importKeys (snd sr) \<subseteq> K \<Longrightarrow> localTargets e cur \<subseteq> K \<Longrightarrow>
   importKeys (snd sr') \<subseteq> K"
proof (induction gfe e cur nd sr arbitrary: sr' rule: visitNode.induct)
  case (1 gfe e cur kind children sr)
  from "1.prems"(1) obtain sr1 where h: "handleNode gfe e cur kind sr = Some sr1"
    and rest: "foldM (visitNode gfe e cur) children sr1 = Some sr'"
    by (auto split: option.splits)
  from handleNode_keys [of gfe e cur kind "fst sr" "snd sr" "fst sr1" "snd sr1"] h "1.prems"(2,3)
  have "importKeys (snd sr1) \<subseteq> K" by auto
  with rest show ?case
  proof (rule foldM_invariant)
    fix x u u'
    assume "x \<in> set children" "importKeys (snd u) \<subseteq> K" "visitNode gfe e cur x u = Some u'"
    with "1.IH" [OF h] "1.prems"(3) show "importKeys (snd u') \<subseteq> K" by blast
  qed
qed

text \<open>\<open>keepsGraph\<close>: a lookup of exports that leaves the graph as it is. \<open>analyzeFile\<close>
  is one: it writes to the export cache only.\<close>

definition keepsGraph :: "exports_lookup \<Rightarrow> bool" where
  "keepsGraph lookup = (\<forall>st p st' r. lookup st p = Some (st', r) \<longrightarrow> depsGraph st' = depsGraph st)"

lemma keepsGraphD: "keepsGraph lookup \<Longrightarrow> lookup st p = Some (st', r) \<Longrightarrow> depsGraph st' = depsGraph st"
  unfolding keepsGraph_def by blast

lemma handleImportDeclaration_graph:
  assumes "keepsGraph lookup"
    and "handleImportDeclaration lookup e cur moduleSpecifier importClause (st, result) = Some (st', result')"
  shows "depsGraph st' = depsGraph st"
  using assms(2) keepsGraphD [OF assms(1)]
  by (auto simp: handleImportDeclaration_def Let_def
      split: expression.splits if_splits option.splits import_clause.splits named_bindings.splits prod.splits)

lemma importWholeModule_graph:
  assumes "keepsGraph lookup"
    and "importWholeModule lookup e cur importPath (st, result) = Some (st', result')"
  shows "depsGraph st' = depsGraph st"
  using assms(2) keepsGraphD [OF assms(1)]
  by (auto simp: importWholeModule_def Let_def split: if_splits option.splits prod.splits)

lemma handleExportDeclaration_graph:
  assumes "keepsGraph lookup"
    and "handleExportDeclaration lookup e cur moduleSpecifier exportClause (st, result) = Some (st', result')"
  shows "depsGraph st' = depsGraph st"
  using assms(2) keepsGraphD [OF assms(1)]
  by (auto simp: handleExportDeclaration_def Let_def
      split: expression.splits if_splits option.splits export_clause.splits prod.splits)

lemma handleNode_graph:
  assumes "keepsGraph lookup" and "handleNode lookup e cur kind (st, result) = Some (st', result')"
  shows "depsGraph st' = depsGraph st"
proof (cases kind)
  case (ImportDeclaration moduleSpecifier importClause)
  with assms show ?thesis
    by (simp add: handleNode_def handleImportDeclaration_graph)
next
  case (ImportEqualsDeclaration moduleReference)
  with assms show ?thesis
    by (auto simp: handleNode_def handleImportEquals_def
        split: option.splits module_reference.splits expression.splits
        dest: importWholeModule_graph)
next
  case (CallExpression expr arguments)
  with assms show ?thesis
    by (auto simp: handleNode_def handleDynamicImport_def handleRequire_def
        split: if_splits list.splits expression.splits
        dest: importWholeModule_graph)
next
  case (ExportDeclaration moduleSpecifier exportClause)
  with assms show ?thesis
    by (simp add: handleNode_def handleExportDeclaration_graph)
next
  case (ExportAssignment isExportEquals expr)
  with assms show ?thesis by (auto simp: handleNode_def)
next
  case (Modifiable modifiers d)
  with assms show ?thesis by (auto simp: handleNode_def split: if_splits)
next
  case OtherNode
  with assms show ?thesis by (simp add: handleNode_def)
qed

lemma visitNode_graph:
  "keepsGraph lookup \<Longrightarrow> visitNode lookup e cur nd sr = Some sr' \<Longrightarrow> depsGraph (fst sr') = depsGraph (fst sr)"
proof (induction lookup e cur nd sr arbitrary: sr' rule: visitNode.induct)
  case (1 lookup e cur kind children sr)
  from "1.prems"(2) obtain sr1 where h: "handleNode lookup e cur kind sr = Some sr1"
    and rest: "foldM (visitNode lookup e cur) children sr1 = Some sr'"
    by (auto split: option.splits)
  from handleNode_graph [OF "1.prems"(1), of e cur kind "fst sr" "snd sr" "fst sr1" "snd sr1"] h
  have "depsGraph (fst sr1) = depsGraph (fst sr)" by simp
  with rest show ?case
  proof (rule foldM_invariant)
    fix x u u'
    assume "x \<in> set children" "depsGraph (fst u) = depsGraph (fst sr)" "visitNode lookup e cur x u = Some u'"
    with "1.IH" [OF h _ "1.prems"(1)] show "depsGraph (fst u') = depsGraph (fst sr)" by simp
  qed
qed

lemma getFileExportsWith_graph:
  "keepsGraph analyze \<Longrightarrow> keepsGraph (getFileExportsWith analyze e)"
  unfolding keepsGraph_def getFileExportsWith_def
  by (auto simp: Let_def split: option.splits if_splits)

lemma analyzeFile_graph: "keepsGraph (analyzeFile n e)"
proof (induction n)
  case 0
  show ?case by (simp add: keepsGraph_def)
next
  case (Suc n)
  have k: "keepsGraph (getFileExportsWith (analyzeFile n e) e)"
    using Suc by (rule getFileExportsWith_graph)
  show ?case
    unfolding keepsGraph_def
  proof (intro allI impI)
    fix st p st' r
    assume a: "analyzeFile (Suc n) e st p = Some (st', r)"
    show "depsGraph st' = depsGraph st"
    proof (cases "readSource e p")
      case None
      with a show ?thesis by simp
    next
      case (Some sourceFile)
      with a obtain st1 result where
        v: "visitNode (getFileExportsWith (analyzeFile n e) e) e p sourceFile (st, emptyResult) = Some (st1, result)"
        and st': "st' = st1\<lparr>exportCache := AList.update p result (exportCache st1),
                        analyzedFiles := Set_add (analyzedFiles st1) p,
                        extractionLog := extractionLog st1 @ [p]\<rparr>"
        by (auto split: option.splits)
      from visitNode_graph [OF k v] st' show ?thesis by simp
    qed
  qed
qed

text \<open>\<open>ledgersLocal\<close>: every ledger of the graph has local targets of its file as keys.\<close>

definition ledgersLocal :: "node env \<Rightarrow> (FileName \<times> Result) list \<Rightarrow> bool" where
  "ledgersLocal e g = (\<forall>f r. map_of g f = Some r \<longrightarrow> importKeys r \<subseteq> localTargets e f)"

lemma analyzeFile_keys:
  assumes "analyzeFile n e st absolutePath = Some (st', Some result)"
  shows "importKeys result \<subseteq> localTargets e absolutePath"
proof (cases n)
  case 0
  with assms show ?thesis by simp
next
  case (Suc m)
  with assms obtain sourceFile st1 where
    v: "visitNode (getFileExportsWith (analyzeFile m e) e) e absolutePath sourceFile (st, emptyResult)
          = Some (st1, result)"
    by (auto split: option.splits)
  have "importKeys (snd (st1, result)) \<subseteq> localTargets e absolutePath"
    using v by (rule visitNode_keys) (simp_all add: importKeys_def emptyResult_def)
  then show ?thesis by simp
qed

lemma analyzeFileRecursive_ledgers:
  "analyzeFileRecursive n e absolutePath (st, visitedFiles) = Some (st', visitedFiles') \<Longrightarrow>
   ledgersLocal e (depsGraph st) \<Longrightarrow> ledgersLocal e (depsGraph st')"
proof (induction n arbitrary: absolutePath st visitedFiles st' visitedFiles')
  case 0
  then show ?case by simp
next
  case (Suc n)
  let ?Q = "\<lambda>u :: service_state \<times> FileName list. ledgersLocal e (depsGraph (fst u))"
  have step: "?Q u'" if "?Q u" "analyzeFileRecursive n e x u = Some u'" for x u u'
    using Suc.IH [of x "fst u" "snd u" "fst u'" "snd u'"] that by simp
  have loop: "?Q (st', visitedFiles')"
    if "foldM (analyzeFileRecursive n e) xs s = Some (st', visitedFiles')" "?Q s" for xs s
    using that by (rule foldM_invariant) (rule step)
  show ?case
  proof (cases "absolutePath \<in> set visitedFiles \<or> \<not> truthy (resolveFilePath e absolutePath)")
    case True
    with Suc.prems show ?thesis by (auto simp: Let_def split: if_splits)
  next
    case False
    then obtain actualPath where ap: "resolveFilePath e absolutePath = Some actualPath"
      by (auto simp: truthy_def split: option.splits)
    show ?thesis
    proof (cases "map_of (depsGraph st) actualPath")
      case (Some known)
      with False ap Suc.prems(1) have
        "foldM (analyzeFileRecursive n e) (map fst (import known)) (st, Set_add visitedFiles absolutePath)
           = Some (st', visitedFiles')"
        by (simp add: Let_def)
      from loop [OF this] Suc.prems(2) show ?thesis by simp
    next
      case None
      show ?thesis
      proof (cases "analyzeFile n e st actualPath")
        case None
        with \<open>map_of (depsGraph st) actualPath = None\<close> False ap Suc.prems(1) show ?thesis
          by (simp add: Let_def)
      next
        case (Some a)
        obtain st1 r where a: "a = (st1, r)" by (cases a)
        from keepsGraphD [OF analyzeFile_graph] Some a have g1: "depsGraph st1 = depsGraph st" by blast
        show ?thesis
        proof (cases r)
          case None
          with Some a \<open>map_of (depsGraph st) actualPath = None\<close> False ap Suc.prems g1 show ?thesis
            by (simp add: Let_def)
        next
          case (Some result)
          with \<open>analyzeFile n e st actualPath = Some a\<close> a
          have an: "analyzeFile n e st actualPath = Some (st1, Some result)" by simp
          from analyzeFile_keys [OF an] have keys: "importKeys result \<subseteq> localTargets e actualPath" .
          have "ledgersLocal e (AList.update actualPath result (depsGraph st1))"
            using Suc.prems(2) keys g1
            by (auto simp: ledgersLocal_def update_conv' split: if_splits)
          moreover from an \<open>map_of (depsGraph st) actualPath = None\<close> False ap Suc.prems(1) have
            "foldM (analyzeFileRecursive n e) (map fst (import result))
               (st1\<lparr>depsGraph := AList.update actualPath result (depsGraph st1)\<rparr>,
                Set_add visitedFiles absolutePath) = Some (st', visitedFiles')"
            by (simp add: Let_def)
          ultimately show ?thesis using loop by simp
        qed
      qed
    qed
  qed
qed

lemma query_ledgers:
  assumes "query n e st f = Some (st', res)" and "ledgersLocal e (depsGraph st)"
  shows "ledgersLocal e (depsGraph st')"
proof (cases "truthy (resolveFilePath e f)")
  case False
  with assms show ?thesis by (simp add: query_def Let_def)
next
  case True
  show ?thesis
  proof (cases "map_of (depsGraph st) (the (resolveFilePath e f)) = None")
    case False
    with True assms show ?thesis
      by (auto simp: query_def Let_def split: option.splits)
  next
    case None: True
    with True assms(1) obtain vis where
      "analyzeFileRecursive n e (the (resolveFilePath e f)) (st, []) = Some (st', vis)"
      by (auto simp: query_def Let_def split: option.splits)
    from analyzeFileRecursive_ledgers [OF this assms(2)] show ?thesis .
  qed
qed

text \<open>
  \<open>a.ts\<close> is \<open>import { x } from './missing'; import fs from 'fs'\<close>, and no file
  \<open>missing\<close> exists.
\<close>

definition fsMissing :: "node env" where
  "fsMissing =
     \<lparr>cwd = ''/'',
      existsSync = (\<lambda>p. p \<in> set [''/p'', ''/p/a.ts'']),
      statIsFile = (\<lambda>p. p \<in> set [''/p/a.ts'']),
      readSource = (\<lambda>p.
        if p = ''/p/a.ts'' then
          Some (Node OtherNode
            [Node (ImportDeclaration (StringLiteral ''./missing'')
                     (Some (ImportClause None (Some (NamedImports [Specifier None ''x'']))))) [],
             Node (ImportDeclaration (StringLiteral ''fs'')
                     (Some (ImportClause (Some ''fs'') None))) []])
        else None),
      PathsMapping = []\<rparr>"

text \<open>
  C4, as stated, fails: the import of \<open>./missing\<close> is recorded under the path
  \<open>/p/missing\<close>, which \<open>resolveFilePath\<close> cannot resolve to a file. (The external
  specifier \<open>fs\<close> is not recorded.)
\<close>

theorem unresolved_import_key_counterexample:
  "map_option (map_option import \<circ> snd) (analyzeFile 1 fsMissing initialState ''/p/a.ts'')
     = Some (Some [(''/p/missing'', [''x''])])
   \<and> resolveFilePath fsMissing ''/p/missing'' = None"
  by code_simp

text \<open>
  C4, amended: every key of the import ledger of an analyzed file's result (as
  \<open>analyzeFile\<close> returns it, and as it stands in the graph after a query on a new service)
  is what \<open>resolveImportPath\<close> returns, from that file, for a local specifier (a relative
  one or a key of the paths mapping): the file it resolves to or, when it resolves to no
  file, the computed path itself. An external specifier is never recorded.
\<close>

theorem import_keys_are_local_targets:
  "(analyzeFile n e st absolutePath = Some (st', Some result) \<and> k \<in> fst ` set (import result) \<longrightarrow>
      (\<exists>importPath. isLocalImportPath e importPath \<and>
         k = resolveImportPath e absolutePath importPath)) \<and>
   (query m e initialState f = Some (st1, res) \<and> map_of (depsGraph st1) file = Some r \<and>
    k' \<in> fst ` set (import r) \<longrightarrow>
      (\<exists>importPath. isLocalImportPath e importPath \<and> k' = resolveImportPath e file importPath))"
proof (intro conjI impI)
  assume "analyzeFile n e st absolutePath = Some (st', Some result) \<and> k \<in> fst ` set (import result)"
  with analyzeFile_keys [of n e st absolutePath st' result]
  have "k \<in> localTargets e absolutePath"
    by (auto simp: importKeys_def)
  then show "\<exists>importPath. isLocalImportPath e importPath \<and> k = resolveImportPath e absolutePath importPath"
    by (auto simp: localTargets_def)
next
  assume a: "query m e initialState f = Some (st1, res) \<and> map_of (depsGraph st1) file = Some r \<and>
    k' \<in> fst ` set (import r)"
  have "ledgersLocal e (depsGraph initialState)"
    by (simp add: ledgersLocal_def initialState_def)
  with a query_ledgers [of m e initialState f st1 res] have "ledgersLocal e (depsGraph st1)"
    by simp
  with a have "importKeys r \<subseteq> localTargets e file"
    by (simp add: ledgersLocal_def)
  moreover from a have "k' \<in> importKeys r"
    by (simp add: importKeys_def)
  ultimately have "k' \<in> localTargets e file" by blast
  then show "\<exists>importPath. isLocalImportPath e importPath \<and> k' = resolveImportPath e file importPath"
    by (auto simp: localTargets_def)
qed

text \<open>
  Witness for C4 (amended): the key \<open>/p/missing\<close> recorded for \<open>a.ts\<close> above comes from a
  local specifier.
\<close>

theorem import_keys_are_local_targets_witness:
  "\<exists>importPath. isLocalImportPath fsMissing importPath \<and>
     ''/p/missing'' = resolveImportPath fsMissing ''/p/a.ts'' importPath"
proof -
  have "map_option (map_option import \<circ> snd) (analyzeFile 1 fsMissing initialState ''/p/a.ts'')
     = Some (Some [(''/p/missing'', [''x''])])"
    by code_simp
  then obtain st' result where a: "analyzeFile 1 fsMissing initialState ''/p/a.ts'' = Some (st', Some result)"
    and i: "import result = [(''/p/missing'', [''x''])]"
    by (cases "analyzeFile 1 fsMissing initialState ''/p/a.ts''") auto
  from i have k: "''/p/missing'' \<in> fst ` set (import result)" by simp
  from import_keys_are_local_targets [of 1 fsMissing initialState "''/p/a.ts''" st' result "''/p/missing''"] a k
  show ?thesis by blast
qed

section \<open>Edges without symbols\<close>

text \<open>\<open>dropEmptyEdges\<close>: the graph with every import edge that carries no symbol removed
  from every ledger.\<close>

definition dropEmptyEdges :: "(FileName \<times> Result) list \<Rightarrow> (FileName \<times> Result) list" where
  "dropEmptyEdges g =
     map (\<lambda>(f, r). (f, r\<lparr>import := filter (\<lambda>edge. snd edge \<noteq> []) (import r)\<rparr>)) g"

lemma map_of_dropEmptyEdges:
  "map_of (dropEmptyEdges g) f
     = map_option (\<lambda>r. r\<lparr>import := filter (\<lambda>edge. snd edge \<noteq> []) (import r)\<rparr>) (map_of g f)"
  unfolding dropEmptyEdges_def by (induction g) auto

lemma fold_skip_empty_edges:
  assumes "\<And>edge. edge \<in> set es \<Longrightarrow> symbol \<in> set (snd edge) \<Longrightarrow> T' edge = T edge"
  shows "fold (\<lambda>edge acc. if symbol \<in> set (snd edge) then (Set_addAll (fst acc) (T' edge), True) else acc)
           (filter (\<lambda>edge. snd edge \<noteq> []) es) a
       = fold (\<lambda>edge acc. if symbol \<in> set (snd edge) then (Set_addAll (fst acc) (T edge), True) else acc)
           es a"
  using assms
proof (induction es arbitrary: a)
  case Nil
  then show ?case by simp
next
  case (Cons x es)
  have rest: "\<And>a. fold (\<lambda>edge acc. if symbol \<in> set (snd edge) then (Set_addAll (fst acc) (T' edge), True) else acc)
           (filter (\<lambda>edge. snd edge \<noteq> []) es) a
       = fold (\<lambda>edge acc. if symbol \<in> set (snd edge) then (Set_addAll (fst acc) (T edge), True) else acc)
           es a"
    using Cons.IH Cons.prems by simp
  show ?case
  proof (cases "symbol \<in> set (snd x)")
    case True
    then have "snd x \<noteq> []" by auto
    moreover from True Cons.prems have "T' x = T x" by simp
    ultimately show ?thesis using True rest by simp
  next
    case False
    then show ?thesis using rest by simp
  qed
qed

lemma isExported_import_update [simp]: "isExported (r\<lparr>import := i\<rparr>) symbol = isExported r symbol"
  by (simp add: isExported_def)

lemma traceSymbolSource_dropEmptyEdges:
  "traceSymbolSource (dropEmptyEdges g) filePath symbol visited = traceSymbolSource g filePath symbol visited"
proof (induction g filePath symbol visited rule: traceSymbolSource.induct)
  case (1 g filePath symbol visited)
  show ?case
  proof (cases "filePath \<in> set visited")
    case True
    then show ?thesis by (simp add: traceSymbolSource.simps [of _ filePath])
  next
    case fresh: False
    show ?thesis
    proof (cases "map_of g filePath")
      case None
      with fresh show ?thesis
        by (simp add: traceSymbolSource.simps [of _ filePath] map_of_dropEmptyEdges)
    next
      case (Some fileInfo)
      show ?thesis
      proof (cases "isExported fileInfo symbol")
        case False
        with fresh Some show ?thesis
          by (simp add: traceSymbolSource.simps [of _ filePath] map_of_dropEmptyEdges)
      next
        case True
        have "fold (\<lambda>edge acc. if symbol \<in> set (snd edge)
                 then (Set_addAll (fst acc)
                        (traceSymbolSource (dropEmptyEdges g) (fst edge) symbol (visited @ [filePath])), True)
                 else acc)
               (filter (\<lambda>edge. snd edge \<noteq> []) (import fileInfo)) ([], False)
            = fold (\<lambda>edge acc. if symbol \<in> set (snd edge)
                 then (Set_addAll (fst acc)
                        (traceSymbolSource g (fst edge) symbol (visited @ [filePath])), True)
                 else acc)
               (import fileInfo) ([], False)"
          by (rule fold_skip_empty_edges) (use "1.IH" fresh Some True in auto)
        with fresh Some True show ?thesis
          by (simp add: traceSymbolSource.simps [of _ filePath] map_of_dropEmptyEdges)
      qed
    qed
  qed
qed

lemma findAllFinalDependencies_dropEmptyEdges:
  "findAllFinalDependencies n (dropEmptyEdges g) filePath fv = findAllFinalDependencies n g filePath fv"
proof (induction n arbitrary: filePath fv)
  case 0
  show ?case by simp
next
  case (Suc n)
  obtain finalDeps visited where fv: "fv = (finalDeps, visited)" by (cases fv)
  show ?case
  proof (cases "map_of g filePath")
    case None
    then show ?thesis by (simp add: fv map_of_dropEmptyEdges)
  next
    case (Some fileInfo)
    let ?step = "\<lambda>edge.
        foldM (\<lambda>symbol.
                 foldM (\<lambda>source fv'.
                          findAllFinalDependencies n g source (Set_add (fst fv') source, snd fv'))
                   (traceSymbolSource g (fst edge) symbol []))
          (snd edge)"
    have "foldM ?step (filter (\<lambda>edge. snd edge \<noteq> []) (import fileInfo)) s = foldM ?step (import fileInfo) s" for s
      by (rule foldM_filter_skip) simp
    with Some show ?thesis
      by (simp add: fv map_of_dropEmptyEdges Suc.IH traceSymbolSource_dropEmptyEdges)
  qed
qed

lemma side_effect_import_recorded:
  assumes "\<not> isStyleFile importPath" and "isLocalImportPath e importPath"
  shows "handleImportDeclaration gfe e cur (StringLiteral importPath) None (st, result)
     = Some (st, recordImport result (resolveImportPath e cur importPath) [])"
  using assms by (simp add: handleImportDeclaration_def Let_def)

lemma recordImport_empty:
  "map_of (import (recordImport result k [])) k
     = Some (case map_of (import result) k of None \<Rightarrow> [] | Some s \<Rightarrow> s)"
  by (simp add: recordImport_def Let_def update_conv' Set_addAll_def)

lemma collectStyles_dropEmptyEdges:
  "collectStyles (dropEmptyEdges g) finalDeps = collectStyles g finalDeps"
proof -
  have "(case map_of (dropEmptyEdges g) d of None \<Rightarrow> acc
         | Some fileInfo \<Rightarrow> Set_addAll acc (styleImports fileInfo))
      = (case map_of g d of None \<Rightarrow> acc | Some fileInfo \<Rightarrow> Set_addAll acc (styleImports fileInfo))"
    for d and acc :: "FileName list"
    by (simp add: map_of_dropEmptyEdges split: option.splits)
  then show ?thesis by (simp add: collectStyles_def)
qed

text \<open>
  \<open>a.ts\<close> is \<open>import './t'\<close> and \<open>t.ts\<close> is \<open>export const z = 1\<close>; \<open>graphSideEffect\<close> is
  the graph built from them.
\<close>

definition graphSideEffect :: "(FileName \<times> Result) list" where
  "graphSideEffect =
     [(''/p/a.ts'', \<lparr>import = [(''/p/t.ts'', [])], defaultExport = None, commonExport = [],
                     styleImports = []\<rparr>),
      (''/p/t.ts'', \<lparr>import = [], defaultExport = None, commonExport = [''z''], styleImports = []\<rparr>)]"

definition fsSideEffect :: "node env" where
  "fsSideEffect =
     \<lparr>cwd = ''/'',
      existsSync = (\<lambda>p. p \<in> set [''/p'', ''/p/a.ts'', ''/p/t.ts'']),
      statIsFile = (\<lambda>p. p \<in> set [''/p/a.ts'', ''/p/t.ts'']),
      readSource = (\<lambda>p.
        if p = ''/p/a.ts'' then
          Some (Node OtherNode [Node (ImportDeclaration (StringLiteral ''./t'') None) []])
        else if p = ''/p/t.ts'' then
          Some (Node OtherNode
            [Node (Modifiable [ExportKeyword] (VariableStatement [BindingIdentifier ''z''])) []])
        else None),
      PathsMapping = []\<rparr>"

text \<open>
  C10: a side-effect import of a local file that is not a style file is recorded under the
  resolved path of the file with the symbols recorded for it so far, the empty set when
  there are none; and an edge without symbols contributes nothing to a query: the tracer,
  the closure computation (its final dependencies and the files it expands) and the
  collection of styles give the same on the graph and on the graph without such edges.
\<close>

theorem side_effect_edge_contributes_nothing:
  "(\<not> isStyleFile importPath \<and> isLocalImportPath e importPath \<longrightarrow>
      (\<exists>result'.
         handleImportDeclaration lookup e currentFilePath (StringLiteral importPath) None (st, result)
           = Some (st, result') \<and>
         map_of (import result') (resolveImportPath e currentFilePath importPath)
           = Some (case map_of (import result) (resolveImportPath e currentFilePath importPath) of
                     None \<Rightarrow> [] | Some symbols \<Rightarrow> symbols))) \<and>
   traceSymbolSource (dropEmptyEdges g) filePath symbol visited = traceSymbolSource g filePath symbol visited \<and>
   findAllFinalDependencies n (dropEmptyEdges g) filePath fv = findAllFinalDependencies n g filePath fv \<and>
   collectStyles (dropEmptyEdges g) finalDeps = collectStyles g finalDeps"
  by (simp add: side_effect_import_recorded recordImport_empty traceSymbolSource_dropEmptyEdges
      findAllFinalDependencies_dropEmptyEdges collectStyles_dropEmptyEdges)

text \<open>
  Witness for C10: the side-effect import of \<open>./t\<close> is recorded with the empty set, and
  the closure from \<open>a.ts\<close> in the graph above finds no dependency and expands \<open>a.ts\<close> only.
\<close>

theorem side_effect_edge_contributes_nothing_witness:
  "(\<exists>result'.
      handleImportDeclaration (\<lambda>st p. None) fsSideEffect ''/p/a.ts'' (StringLiteral ''./t'') None
        (initialState, emptyResult) = Some (initialState, result') \<and>
      map_of (import result') ''/p/t.ts'' = Some []) \<and>
   findAllFinalDependencies 2 graphSideEffect ''/p/a.ts'' ([], []) = Some ([], [''/p/a.ts''])"
proof -
  have h: "\<not> isStyleFile ''./t'' \<and> isLocalImportPath fsSideEffect ''./t''"
    by code_simp
  have r: "resolveImportPath fsSideEffect ''/p/a.ts'' ''./t'' = ''/p/t.ts''"
    by code_simp
  have d: "findAllFinalDependencies 2 (dropEmptyEdges graphSideEffect) ''/p/a.ts'' ([], []) = Some ([], [''/p/a.ts''])"
    by code_simp
  from side_effect_edge_contributes_nothing [of "''./t''" fsSideEffect "\<lambda>st p. None" "''/p/a.ts''"
      initialState emptyResult graphSideEffect "''/p/a.ts''" "''''" "[]" 2 "([], [])" "[]"] h r d
  show ?thesis by (simp add: emptyResult_def)
qed

text \<open>The same from end to end: the extraction of \<open>a.ts\<close> records the edge with the
  empty set, the query of \<open>a.ts\<close> builds the graph above and returns nothing.\<close>

lemma side_effect_end_to_end:
  "map_option (map_option import \<circ> snd) (analyzeFile 1 fsSideEffect initialState ''/p/a.ts'')
     = Some (Some [(''/p/t.ts'', [])])
   \<and> map_option snd (query 3 fsSideEffect initialState ''/p/a.ts'') = Some []
   \<and> map_option (depsGraph \<circ> fst) (query 3 fsSideEffect initialState ''/p/a.ts'') = Some graphSideEffect"
  by code_simp

section \<open>The closure of a query\<close>

text \<open>\<open>allSources\<close>: the sources the three nested loops of \<open>findAllFinalDependencies\<close>
  go through for one file, in order.\<close>

definition allSources :: "(FileName \<times> Result) list \<Rightarrow> Result \<Rightarrow> FileName list" where
  "allSources g fileInfo =
     concat (map (\<lambda>edge. concat (map (\<lambda>symbol. traceSymbolSource g (fst edge) symbol []) (snd edge)))
       (import fileInfo))"

lemma findAllFinalDependencies_Suc:
  "findAllFinalDependencies (Suc n) g filePath (finalDeps, visited) =
     (if filePath \<in> set visited then Some (finalDeps, visited)
      else
        (case map_of g filePath of
           None \<Rightarrow> Some (finalDeps, Set_add visited filePath)
         | Some fileInfo \<Rightarrow>
             foldM (\<lambda>source fv'. findAllFinalDependencies n g source (Set_add (fst fv') source, snd fv'))
               (allSources g fileInfo) (finalDeps, Set_add visited filePath)))"
proof -
  let ?F = "\<lambda>source fv'. findAllFinalDependencies n g source (Set_add (fst fv') source, snd fv')"
  let ?T = "\<lambda>edge symbol. traceSymbolSource g (fst edge) symbol []"
  have inner: "foldM (\<lambda>symbol. foldM ?F (?T edge symbol)) (snd edge)
      = foldM ?F (concat (map (?T edge) (snd edge)))" for edge :: "FileName \<times> SymbolName list"
    by (rule foldM_concat_map)
  have "foldM (\<lambda>edge. foldM (\<lambda>symbol. foldM ?F (?T edge symbol)) (snd edge)) es
      = foldM ?F (concat (map (\<lambda>edge. concat (map (?T edge) (snd edge))) es))" for es
    unfolding inner by (rule foldM_concat_map)
  then show ?thesis
    by (simp add: allSources_def split: option.splits)
qed

lemma set_allSources:
  "set (allSources g fileInfo) =
     (\<Union>edge \<in> set (import fileInfo). \<Union>symbol \<in> set (snd edge). set (traceSymbolSource g (fst edge) symbol []))"
  by (auto simp: allSources_def)

text \<open>\<open>origin g h x\<close>: the file \<open>h\<close> of the graph has an import edge, and a symbol on it,
  whose trace contains \<open>x\<close>.\<close>

definition origin :: "(FileName \<times> Result) list \<Rightarrow> FileName \<Rightarrow> FileName \<Rightarrow> bool" where
  "origin g h x =
     (\<exists>fileInfo edge symbol. map_of g h = Some fileInfo \<and> edge \<in> set (import fileInfo) \<and>
        symbol \<in> set (snd edge) \<and> x \<in> set (traceSymbolSource g (fst edge) symbol []))"

lemma originI: "map_of g h = Some fileInfo \<Longrightarrow> x \<in> set (allSources g fileInfo) \<Longrightarrow> origin g h x"
  unfolding origin_def set_allSources by fastforce

lemma findAll_origins:
  "findAllFinalDependencies n g filePath (finalDeps, visited) = Some (finalDeps', visited') \<Longrightarrow>
   set finalDeps \<subseteq> set finalDeps' \<and>
   (\<forall>x \<in> set finalDeps' - set finalDeps. \<exists>h \<in> insert filePath (set finalDeps'). origin g h x)"
proof (induction n arbitrary: filePath finalDeps visited finalDeps' visited')
  case 0
  then show ?case by simp
next
  case (Suc n)
  show ?case
  proof (cases "filePath \<in> set visited")
    case True
    with Suc.prems show ?thesis by (simp add: findAllFinalDependencies_Suc del: findAllFinalDependencies.simps)
  next
    case fresh: False
    show ?thesis
    proof (cases "map_of g filePath")
      case None
      with fresh Suc.prems show ?thesis by (simp add: findAllFinalDependencies_Suc del: findAllFinalDependencies.simps)
    next
      case (Some fileInfo)
      let ?Q = "\<lambda>u :: FileName list \<times> FileName list. set finalDeps \<subseteq> set (fst u) \<and>
          (\<forall>x \<in> set (fst u) - set finalDeps. \<exists>h \<in> insert filePath (set (fst u)). origin g h x)"
      from fresh Some Suc.prems have run:
        "foldM (\<lambda>source fv'. findAllFinalDependencies n g source (Set_add (fst fv') source, snd fv'))
           (allSources g fileInfo) (finalDeps, Set_add visited filePath) = Some (finalDeps', visited')"
        by (simp add: findAllFinalDependencies_Suc del: findAllFinalDependencies.simps)
      have "?Q (finalDeps', visited')"
        using run
      proof (rule foldM_invariant)
        show "?Q (finalDeps, Set_add visited filePath)" by simp
      next
        fix source and u u' :: "FileName list \<times> FileName list"
        assume src: "source \<in> set (allSources g fileInfo)" and Q: "?Q u"
          and step: "findAllFinalDependencies n g source (Set_add (fst u) source, snd u) = Some u'"
        from step have "findAllFinalDependencies n g source (Set_add (fst u) source, snd u) = Some (fst u', snd u')"
          by simp
        from Suc.IH [OF this]
        have mono: "insert source (set (fst u)) \<subseteq> set (fst u')"
          and new: "\<forall>x \<in> set (fst u') - insert source (set (fst u)). \<exists>h \<in> insert source (set (fst u')). origin g h x"
          by auto
        have "origin g filePath source"
          using Some src by (rule originI)
        show "?Q u'"
        proof (intro conjI ballI)
          show "set finalDeps \<subseteq> set (fst u')" using Q mono by auto
        next
          fix x assume x: "x \<in> set (fst u') - set finalDeps"
          show "\<exists>h \<in> insert filePath (set (fst u')). origin g h x"
          proof (cases "x = source")
            case True
            with \<open>origin g filePath source\<close> show ?thesis by auto
          next
            case False
            show ?thesis
            proof (cases "x \<in> set (fst u)")
              case True
              with x Q obtain h where "h \<in> insert filePath (set (fst u))" "origin g h x" by auto
              with mono show ?thesis by auto
            next
              case notin: False
              with False x new obtain h where "h \<in> insert source (set (fst u'))" "origin g h x" by auto
              with mono show ?thesis by auto
            qed
          qed
        qed
      qed
      then show ?thesis by simp
    qed
  qed
qed

lemma set_collectStyles:
  "set (collectStyles g finalDeps) =
     (\<Union>d \<in> set finalDeps. case map_of g d of None \<Rightarrow> {} | Some fileInfo \<Rightarrow> set (styleImports fileInfo))"
proof -
  have "set (fold (\<lambda>depFile styleDeps.
             case map_of g depFile of
               None \<Rightarrow> styleDeps
             | Some fileInfo \<Rightarrow> Set_addAll styleDeps (styleImports fileInfo)) ds acc)
      = set acc \<union> (\<Union>d \<in> set ds. case map_of g d of None \<Rightarrow> {} | Some fileInfo \<Rightarrow> set (styleImports fileInfo))"
    for ds acc
    by (induction ds arbitrary: acc) (auto split: option.splits)
  then show ?thesis by (simp add: collectStyles_def)
qed

lemma query_Some:
  assumes "query n e st f = Some (st', res)" and "resolveFilePath e f = Some a" and "a \<noteq> []"
  shows "\<exists>finalDeps visited.
           findAllFinalDependencies n (depsGraph st') a ([], []) = Some (finalDeps, visited) \<and>
           res = Set_addAll finalDeps (collectStyles (depsGraph st') finalDeps)"
  using assms
  by (auto simp: query_def Let_def truthy_def split: option.splits if_splits prod.splits)

text \<open>\<open>stylesOf g d\<close>: the style imports of the file \<open>d\<close>, none when it is not in the graph.\<close>

definition stylesOf :: "(FileName \<times> Result) list \<Rightarrow> FileName \<Rightarrow> FileName set" where
  "stylesOf g d = (case map_of g d of None \<Rightarrow> {} | Some fileInfo \<Rightarrow> set (styleImports fileInfo))"

subsection \<open>The queried file in its own result\<close>

text \<open>
  \<open>a.ts\<close> is \<open>import { y } from './b'; export const x = 1\<close> and \<open>b.ts\<close> is
  \<open>import { x } from './a'; export const y = x\<close>.
\<close>

definition fsImportCycle :: "node env" where
  "fsImportCycle =
     \<lparr>cwd = ''/'',
      existsSync = (\<lambda>p. p \<in> set [''/p'', ''/p/a.ts'', ''/p/b.ts'']),
      statIsFile = (\<lambda>p. p \<in> set [''/p/a.ts'', ''/p/b.ts'']),
      readSource = (\<lambda>p.
        if p = ''/p/a.ts'' then
          Some (Node OtherNode
            [Node (ImportDeclaration (StringLiteral ''./b'')
                     (Some (ImportClause None (Some (NamedImports [Specifier None ''y'']))))) [],
             Node (Modifiable [ExportKeyword] (VariableStatement [BindingIdentifier ''x''])) []])
        else if p = ''/p/b.ts'' then
          Some (Node OtherNode
            [Node (ImportDeclaration (StringLiteral ''./a'')
                     (Some (ImportClause None (Some (NamedImports [Specifier None ''x'']))))) [],
             Node (Modifiable [ExportKeyword] (VariableStatement [BindingIdentifier ''y''])) []])
        else None),
      PathsMapping = []\<rparr>"

text \<open>
  C5, as stated, fails: the query of \<open>a.ts\<close> returns \<open>b.ts\<close>, which declares \<open>y\<close>, and
  \<open>a.ts\<close> itself, which declares the \<open>x\<close> that \<open>b.ts\<close> imports.
\<close>

theorem query_contains_self_counterexample:
  "map_option snd (query 3 fsImportCycle initialState ''/p/a.ts'') = Some [''/p/b.ts'', ''/p/a.ts'']"
  by code_simp

text \<open>
  C5, amended: the identity of the queried file is in its own result only when it is a
  traced origin or a style import: then some file that is the queried file or a member of
  the result has an import edge, and a symbol on it, whose trace contains the queried
  file, or the queried file is among the style imports of a member of the result. The
  query never adds the queried file for its own sake.
\<close>

theorem query_self_only_as_origin:
  assumes "query n e st f = Some (st', res)" and "resolveFilePath e f = Some a" and "a \<in> set res"
  shows "(\<exists>h. (h = a \<or> h \<in> set res) \<and> origin (depsGraph st') h a) \<or>
         (\<exists>d. d \<in> set res \<and> a \<in> stylesOf (depsGraph st') d)"
proof -
  from assms(1,2,3) have "a \<noteq> []"
    by (auto simp: query_def Let_def truthy_def)
  from query_Some [OF assms(1,2) this] obtain finalDeps visited where
    run: "findAllFinalDependencies n (depsGraph st') a ([], []) = Some (finalDeps, visited)"
    and res: "res = Set_addAll finalDeps (collectStyles (depsGraph st') finalDeps)"
    by blast
  from assms(3) res have "a \<in> set finalDeps \<or> a \<in> set (collectStyles (depsGraph st') finalDeps)"
    by simp
  then show ?thesis
  proof
    assume "a \<in> set finalDeps"
    with findAll_origins [OF run] obtain h where "h \<in> insert a (set finalDeps)" "origin (depsGraph st') h a"
      by auto
    with res show ?thesis by auto
  next
    assume "a \<in> set (collectStyles (depsGraph st') finalDeps)"
    then obtain d where "d \<in> set finalDeps" "a \<in> stylesOf (depsGraph st') d"
      by (auto simp: set_collectStyles stylesOf_def)
    with res show ?thesis by auto
  qed
qed

text \<open>Witness for C5 (amended): the query of \<open>a.ts\<close> in the cycle above.\<close>

theorem query_self_only_as_origin_witness:
  "\<exists>st'. query 3 fsImportCycle initialState ''/p/a.ts'' = Some (st', [''/p/b.ts'', ''/p/a.ts'']) \<and>
     ((\<exists>h. (h = ''/p/a.ts'' \<or> h \<in> set [''/p/b.ts'', ''/p/a.ts'']) \<and> origin (depsGraph st') h ''/p/a.ts'') \<or>
      (\<exists>d. d \<in> set [''/p/b.ts'', ''/p/a.ts''] \<and> ''/p/a.ts'' \<in> stylesOf (depsGraph st') d))"
proof -
  have "map_option snd (query 3 fsImportCycle initialState ''/p/a.ts'') = Some [''/p/b.ts'', ''/p/a.ts'']"
    by code_simp
  then obtain st' where q: "query 3 fsImportCycle initialState ''/p/a.ts'' = Some (st', [''/p/b.ts'', ''/p/a.ts''])"
    by auto
  have r: "resolveFilePath fsImportCycle ''/p/a.ts'' = Some ''/p/a.ts''"
    by code_simp
  from query_self_only_as_origin [OF q r] q show ?thesis by simp
qed

subsection \<open>Style imports in the result\<close>

text \<open>
  \<open>a.ts\<close> is \<open>import './shared.css'; import { d } from './d'\<close> and \<open>d.ts\<close> is
  \<open>import './shared.css'; export const d = 1\<close>.
\<close>

definition fsSharedStyle :: "node env" where
  "fsSharedStyle =
     \<lparr>cwd = ''/'',
      existsSync = (\<lambda>p. p \<in> set [''/p'', ''/p/a.ts'', ''/p/d.ts'', ''/p/shared.css'']),
      statIsFile = (\<lambda>p. p \<in> set [''/p/a.ts'', ''/p/d.ts'', ''/p/shared.css'']),
      readSource = (\<lambda>p.
        if p = ''/p/a.ts'' then
          Some (Node OtherNode
            [Node (ImportDeclaration (StringLiteral ''./shared.css'') None) [],
             Node (ImportDeclaration (StringLiteral ''./d'')
                     (Some (ImportClause None (Some (NamedImports [Specifier None ''d'']))))) []])
        else if p = ''/p/d.ts'' then
          Some (Node OtherNode
            [Node (ImportDeclaration (StringLiteral ''./shared.css'') None) [],
             Node (Modifiable [ExportKeyword] (VariableStatement [BindingIdentifier ''d''])) []])
        else None),
      PathsMapping = []\<rparr>"

text \<open>
  C7, as stated, fails: the query of \<open>a.ts\<close> returns \<open>d.ts\<close> and \<open>shared.css\<close>. The
  style sheet is a direct style import of \<open>a.ts\<close>, and \<open>a.ts\<close> is not among the traced
  origins (they are \<open>d.ts\<close> alone); it is in the result as a style import of \<open>d.ts\<close>.
\<close>

theorem own_style_included_counterexample:
  "(case query 3 fsSharedStyle initialState ''/p/a.ts'' of
      None \<Rightarrow> False
    | Some (st', res) \<Rightarrow>
        res = [''/p/d.ts'', ''/p/shared.css''] \<and>
        map_option styleImports (map_of (depsGraph st') ''/p/a.ts'') = Some [''/p/shared.css''] \<and>
        map_option fst (findAllFinalDependencies 3 (depsGraph st') ''/p/a.ts'' ([], [])) = Some [''/p/d.ts''])"
  by code_simp

text \<open>
  C7, amended: a query of a file that cannot be resolved returns nothing. Otherwise, with
  \<open>finalDeps\<close> the traced origins the closure ends with, the result is \<open>finalDeps\<close> and the
  style imports of exactly the members of \<open>finalDeps\<close>; the style imports of a traced
  origin are always in the result; and when the queried file is not among the traced
  origins, one of its own style imports is in the result only if it is itself a traced
  origin or a style import of a traced origin (another file).
\<close>

theorem query_styles:
  assumes "query n e st f = Some (st', res)"
  shows "(\<not> truthy (resolveFilePath e f) \<and> res = []) \<or>
         (\<exists>a finalDeps visited.
            resolveFilePath e f = Some a \<and>
            findAllFinalDependencies n (depsGraph st') a ([], []) = Some (finalDeps, visited) \<and>
            set res = set finalDeps \<union> (\<Union>d \<in> set finalDeps. stylesOf (depsGraph st') d) \<and>
            (\<forall>d \<in> set finalDeps. stylesOf (depsGraph st') d \<subseteq> set res) \<and>
            (a \<notin> set finalDeps \<longrightarrow>
               (\<forall>s \<in> stylesOf (depsGraph st') a \<inter> set res.
                  s \<in> set finalDeps \<or> (\<exists>d \<in> set finalDeps. d \<noteq> a \<and> s \<in> stylesOf (depsGraph st') d))))"
proof (cases "truthy (resolveFilePath e f)")
  case False
  with assms show ?thesis by (simp add: query_def Let_def)
next
  case True
  then obtain a where a: "resolveFilePath e f = Some a" "a \<noteq> []"
    by (auto simp: truthy_def split: option.splits)
  from query_Some [OF assms a] obtain finalDeps visited where
    run: "findAllFinalDependencies n (depsGraph st') a ([], []) = Some (finalDeps, visited)"
    and res: "res = Set_addAll finalDeps (collectStyles (depsGraph st') finalDeps)"
    by blast
  have eq: "set res = set finalDeps \<union> (\<Union>d \<in> set finalDeps. stylesOf (depsGraph st') d)"
    by (simp add: res set_collectStyles stylesOf_def)
  then have incl: "\<forall>d \<in> set finalDeps. stylesOf (depsGraph st') d \<subseteq> set res"
    by auto
  have own: "\<forall>s \<in> stylesOf (depsGraph st') a \<inter> set res.
      s \<in> set finalDeps \<or> (\<exists>d \<in> set finalDeps. d \<noteq> a \<and> s \<in> stylesOf (depsGraph st') d)"
    if "a \<notin> set finalDeps"
  proof
    fix s assume "s \<in> stylesOf (depsGraph st') a \<inter> set res"
    with eq have "s \<in> set finalDeps \<or> (\<exists>d \<in> set finalDeps. s \<in> stylesOf (depsGraph st') d)" by auto
    with that show "s \<in> set finalDeps \<or> (\<exists>d \<in> set finalDeps. d \<noteq> a \<and> s \<in> stylesOf (depsGraph st') d)"
      by auto
  qed
  from a(1) run eq incl own show ?thesis by blast
qed

text \<open>Witness for C7 (amended): the query of \<open>a.ts\<close> above.\<close>

theorem query_styles_witness:
  "\<exists>st' finalDeps visited.
     query 3 fsSharedStyle initialState ''/p/a.ts'' = Some (st', [''/p/d.ts'', ''/p/shared.css'']) \<and>
     findAllFinalDependencies 3 (depsGraph st') ''/p/a.ts'' ([], []) = Some (finalDeps, visited) \<and>
     {''/p/d.ts'', ''/p/shared.css''} = set finalDeps \<union> (\<Union>d \<in> set finalDeps. stylesOf (depsGraph st') d)"
proof -
  have "map_option snd (query 3 fsSharedStyle initialState ''/p/a.ts'') = Some [''/p/d.ts'', ''/p/shared.css'']"
    by code_simp
  then obtain st' where q: "query 3 fsSharedStyle initialState ''/p/a.ts'' = Some (st', [''/p/d.ts'', ''/p/shared.css''])"
    by auto
  have r: "resolveFilePath fsSharedStyle ''/p/a.ts'' = Some ''/p/a.ts''"
    by code_simp
  from query_styles [OF q] r obtain finalDeps visited where
    "findAllFinalDependencies 3 (depsGraph st') ''/p/a.ts'' ([], []) = Some (finalDeps, visited)"
    "set [''/p/d.ts'', ''/p/shared.css''] = set finalDeps \<union> (\<Union>d \<in> set finalDeps. stylesOf (depsGraph st') d)"
    by (auto simp: truthy_def)
  with q show ?thesis by auto
qed

section \<open>The closure returns\<close>

text \<open>
  The closure computation returns as soon as its fuel exceeds the number of files of the
  graph that are not yet visited, and more fuel does not change what it returns.
\<close>

lemma findAll_visited_grows:
  "findAllFinalDependencies n g filePath (finalDeps, visited) = Some (finalDeps', visited') \<Longrightarrow>
   set visited \<subseteq> set visited'"
proof (induction n arbitrary: filePath finalDeps visited finalDeps' visited')
  case 0
  then show ?case by simp
next
  case (Suc n)
  show ?case
  proof (cases "filePath \<in> set visited")
    case True
    with Suc.prems show ?thesis
      by (simp add: findAllFinalDependencies_Suc del: findAllFinalDependencies.simps)
  next
    case fresh: False
    show ?thesis
    proof (cases "map_of g filePath")
      case None
      with fresh Suc.prems show ?thesis
        by (auto simp: findAllFinalDependencies_Suc simp del: findAllFinalDependencies.simps)
    next
      case (Some fileInfo)
      from fresh Some Suc.prems have run:
        "foldM (\<lambda>source fv'. findAllFinalDependencies n g source (Set_add (fst fv') source, snd fv'))
           (allSources g fileInfo) (finalDeps, Set_add visited filePath) = Some (finalDeps', visited')"
        by (simp add: findAllFinalDependencies_Suc del: findAllFinalDependencies.simps)
      have "set visited \<subseteq> set (snd (finalDeps', visited'))"
        using run
      proof (rule foldM_invariant)
        show "set visited \<subseteq> set (snd (finalDeps, Set_add visited filePath))" by auto
      next
        fix source and u u' :: "FileName list \<times> FileName list"
        assume "set visited \<subseteq> set (snd u)"
          and step: "findAllFinalDependencies n g source (Set_add (fst u) source, snd u) = Some u'"
        from step have "findAllFinalDependencies n g source (Set_add (fst u) source, snd u) = Some (fst u', snd u')"
          by simp
        from Suc.IH [OF this] \<open>set visited \<subseteq> set (snd u)\<close> show "set visited \<subseteq> set (snd u')" by auto
      qed
      then show ?thesis by simp
    qed
  qed
qed

lemma findAll_enough_fuel:
  "card (fst ` set g - set visited) < n \<Longrightarrow>
   \<exists>r. findAllFinalDependencies n g filePath (finalDeps, visited) = Some r"
proof (induction n arbitrary: filePath finalDeps visited)
  case 0
  then show ?case by simp
next
  case (Suc n)
  show ?case
  proof (cases "filePath \<in> set visited")
    case True
    then show ?thesis
      by (simp add: findAllFinalDependencies_Suc del: findAllFinalDependencies.simps)
  next
    case fresh: False
    show ?thesis
    proof (cases "map_of g filePath")
      case None
      with fresh show ?thesis
        by (simp add: findAllFinalDependencies_Suc del: findAllFinalDependencies.simps)
    next
      case (Some fileInfo)
      then have inG: "filePath \<in> fst ` set g"
        by (metis map_of_eq_None_iff option.distinct(1))
      let ?Q = "\<lambda>u :: FileName list \<times> FileName list. insert filePath (set visited) \<subseteq> set (snd u)"
      have "\<exists>s'. foldM (\<lambda>source fv'. findAllFinalDependencies n g source (Set_add (fst fv') source, snd fv'))
           (allSources g fileInfo) (finalDeps, Set_add visited filePath) = Some s' \<and> ?Q s'"
      proof (rule foldM_total)
        show "?Q (finalDeps, Set_add visited filePath)" by auto
      next
        fix source and u :: "FileName list \<times> FileName list"
        assume Q: "?Q u"
        have "fst ` set g - set (snd u) \<subset> fst ` set g - set visited"
          using Q inG fresh by auto
        then have "card (fst ` set g - set (snd u)) < card (fst ` set g - set visited)"
          by (intro psubset_card_mono) auto
        with Suc.prems have "card (fst ` set g - set (snd u)) < n" by simp
        from Suc.IH [OF this] obtain r where
          r: "findAllFinalDependencies n g source (Set_add (fst u) source, snd u) = Some r" by blast
        then have "findAllFinalDependencies n g source (Set_add (fst u) source, snd u) = Some (fst r, snd r)"
          by simp
        from findAll_visited_grows [OF this] Q have "?Q r" by auto
        with r show "\<exists>u'. findAllFinalDependencies n g source (Set_add (fst u) source, snd u) = Some u' \<and> ?Q u'"
          by blast
      qed
      with fresh Some show ?thesis
        by (auto simp: findAllFinalDependencies_Suc simp del: findAllFinalDependencies.simps)
    qed
  qed
qed

lemma findAll_terminates:
  "\<exists>r. findAllFinalDependencies (Suc (length g)) g filePath ([], []) = Some r"
proof (rule findAll_enough_fuel)
  have "card (fst ` set g) \<le> length g"
    by (metis card_image_le card_length le_trans List.finite_set)
  then show "card (fst ` set g - set []) < Suc (length g)" by simp
qed

lemma findAll_more_fuel:
  "findAllFinalDependencies n g filePath fv = Some r \<Longrightarrow> findAllFinalDependencies (Suc n) g filePath fv = Some r"
proof (induction n arbitrary: filePath fv r)
  case 0
  then show ?case by simp
next
  case (Suc n)
  obtain finalDeps visited where fv: "fv = (finalDeps, visited)" by (cases fv)
  show ?case
  proof (cases "filePath \<in> set visited \<or> map_of g filePath = None")
    case True
    with Suc.prems show ?thesis
      by (auto simp: fv findAllFinalDependencies_Suc simp del: findAllFinalDependencies.simps)
  next
    case False
    then obtain fileInfo where f: "filePath \<notin> set visited" "map_of g filePath = Some fileInfo" by auto
    with Suc.prems have
      "foldM (\<lambda>source fv'. findAllFinalDependencies n g source (Set_add (fst fv') source, snd fv'))
           (allSources g fileInfo) (finalDeps, Set_add visited filePath) = Some r"
      by (simp add: fv findAllFinalDependencies_Suc del: findAllFinalDependencies.simps)
    then have
      "foldM (\<lambda>source fv'. findAllFinalDependencies (Suc n) g source (Set_add (fst fv') source, snd fv'))
           (allSources g fileInfo) (finalDeps, Set_add visited filePath) = Some r"
      by (rule foldM_mono) (rule Suc.IH)
    with f show ?thesis
      by (simp add: fv findAllFinalDependencies_Suc [of "Suc n"] del: findAllFinalDependencies.simps)
  qed
qed

end
